theory Spec2Isabelle
  imports Main
begin

section \<open>Values of the registry's JSON and of the table\<close>

text \<open>
  A cell of the table holds what the JSON of the registry holds: a null marker
  (\<open>None\<close> in the JSON, \<open>np.nan\<close> where a frame has no value), a number
  (the \<open>Rank\<close> of a study), a string, or a list (the registry returns every
  requested field as a list of strings).
\<close>

datatype cell = NaN | Num int | Str string | Lst "cell list"

text \<open>
  One element of \<open>StudyFields\<close>: a JSON object, read by Python as a \<open>dict\<close>.
  The association list keeps the insertion order of the keys, which are distinct.
\<close>

type_synonym study = "(string \<times> cell) list"

text \<open>The part of \<open>r.json()["StudyFieldsResponse"]\<close> that the code reads.\<close>

record response =
  NStudiesReturned :: int
  NStudiesFound :: int
  StudyFields :: "study list"

text \<open>
  The \<open>params\<close> dictionary of a request. The key \<open>"field"\<close> is only set when
  \<open>search_field\<close> is not \<open>None\<close>: its absence is \<open>None\<close> here. The key
  \<open>"fields"\<close> is \<open>fields_csv\<close> (a record reserves the name \<open>fields\<close>).
\<close>

record params =
  expr :: string
  fmt :: string
  fields_csv :: string
  min_rnk :: int
  max_rnk :: int
  field :: "string option"

text \<open>
  The exceptions of the code: \<open>requests.get\<close> and \<open>r.json()\<close> may raise
  (nothing catches them), \<open>del clinical_df["Rank"]\<close> raises \<open>KeyError\<close> when
  the frame has no such column, and \<open>"\t".join(x)\<close> raises \<open>TypeError\<close>
  when an element of \<open>x\<close> is not a string.
\<close>

datatype exn = KeyError | TypeError | ConnectionError | JSONDecodeError

text \<open>
  What \<open>query_ctgov_api\<close> gives back: nothing (\<open>return\<close>), a string, the
  frame, or an exception that leaves the function.
\<close>

record frame =
  columns :: "string list"
  rows :: "cell list list"

datatype outcome = ReturnNone | ReturnStr string | ReturnFrame frame | Raise exn

section \<open>Strings\<close>

text \<open>\<open>sep.join(xs)\<close> of Python.\<close>

fun join :: "string \<Rightarrow> string list \<Rightarrow> string" where
  "join sep [] = []"
| "join sep [x] = x"
| "join sep (x # y # ys) = x @ sep @ join sep (y # ys)"

text \<open>
  \<open>s.split(c)\<close> of Python for a separator of one character: the pieces of
  \<open>s\<close> between the occurrences of \<open>c\<close>; the empty string gives one empty piece.
\<close>

fun split :: "char \<Rightarrow> string \<Rightarrow> string list" where
  "split c [] = [[]]"
| "split c (x # xs) =
     (if x = c then [] # split c xs
      else (case split c xs of [] \<Rightarrow> [[x]] | w # ws \<Rightarrow> (x # w) # ws))"

definition tab :: char where
  "tab = CHR 0x09"

definition newline :: char where
  "newline = CHR 0x0A"

section \<open>The operations of the frame library that the code calls\<close>

text \<open>The first occurrence of every element, in order (\<open>keep='first'\<close>).\<close>

fun keep_first :: "'a list \<Rightarrow> 'a list" where
  "keep_first [] = []"
| "keep_first (x # xs) = x # keep_first (removeAll x xs)"

definition get_cell :: "(string \<times> cell) list \<Rightarrow> string \<Rightarrow> cell" where
  "get_cell d c = (case map_of d c of None \<Rightarrow> NaN | Some v \<Rightarrow> v)"

text \<open>
  \<open>pd.DataFrame(info)\<close> for a list of dictionaries: the columns are the keys in
  the order of their first appearance, and a key that a dictionary does not have
  gives a null marker. Numbers are kept as the exact integers of the JSON; the
  library would store a numeric column that has a missing value as floats. In the
  answers of the registry only \<open>Rank\<close> is a number, and it is deleted.
\<close>

definition DataFrame :: "study list \<Rightarrow> frame" where
  "DataFrame info =
     (let cols = keep_first (concat (map (map fst) info))
      in \<lparr>columns = cols, rows = map (\<lambda>d. map (get_cell d) cols) info\<rparr>)"

text \<open>
  \<open>pd.concat([a, b])\<close>: the rows of \<open>a\<close> then those of \<open>b\<close>, over the columns
  of \<open>a\<close> followed by the new columns of \<open>b\<close>; a row has a null marker in the
  columns its frame did not have.
\<close>

definition reindex :: "string list \<Rightarrow> string list \<Rightarrow> cell list \<Rightarrow> cell list" where
  "reindex old new r = map (get_cell (zip old r)) new"

definition concat_df :: "frame \<Rightarrow> frame \<Rightarrow> frame" where
  "concat_df a b =
     (let cols = columns a @ filter (\<lambda>c. c \<notin> set (columns a)) (columns b)
      in \<lparr>columns = cols,
          rows = map (reindex (columns a) cols) (rows a) @
                 map (reindex (columns b) cols) (rows b)\<rparr>)"

text \<open>\<open>del df[c]\<close>: \<open>KeyError\<close> when there is no column \<open>c\<close>.\<close>

definition del_row :: "string \<Rightarrow> string list \<Rightarrow> cell list \<Rightarrow> cell list" where
  "del_row c cols r = map snd (filter (\<lambda>kv. fst kv \<noteq> c) (zip cols r))"

definition del_column :: "string \<Rightarrow> frame \<Rightarrow> exn + frame" where
  "del_column c df =
     (if c \<in> set (columns df)
      then Inr \<lparr>columns = filter (\<lambda>k. k \<noteq> c) (columns df),
                rows = map (del_row c (columns df)) (rows df)\<rparr>
      else Inl KeyError)"

text \<open>
  \<open>df.replace(old, new)\<close> without \<open>regex=True\<close>: a cell whose whole value is
  \<open>old\<close> becomes \<open>new\<close>; every other cell stays as it is.
\<close>

definition replace_cell :: "cell \<Rightarrow> cell \<Rightarrow> cell \<Rightarrow> cell" where
  "replace_cell old new v = (if v = old then new else v)"

definition replace :: "cell \<Rightarrow> cell \<Rightarrow> frame \<Rightarrow> frame" where
  "replace old new df = df\<lparr>rows := map (map (replace_cell old new)) (rows df)\<rparr>"

text \<open>\<open>lambda x: "\t".join(x) if type(x)==list else x\<close>.\<close>

fun is_Str :: "cell \<Rightarrow> bool" where
  "is_Str (Str s) = True"
| "is_Str _ = False"

fun the_Str :: "cell \<Rightarrow> string" where
  "the_Str (Str s) = s"
| "the_Str _ = []"

fun flatten :: "cell \<Rightarrow> exn + cell" where
  "flatten (Lst xs) =
     (if list_all is_Str xs then Inr (Str (join [tab] (map the_Str xs)))
      else Inl TypeError)"
| "flatten v = Inr v"

text \<open>A list of results is the list of the values, or the first exception.\<close>

fun collect :: "(exn + 'a) list \<Rightarrow> exn + 'a list" where
  "collect [] = Inr []"
| "collect (Inl e # xs) = Inl e"
| "collect (Inr v # xs) = (case collect xs of Inl e \<Rightarrow> Inl e | Inr vs \<Rightarrow> Inr (v # vs))"

definition applymap :: "(cell \<Rightarrow> exn + cell) \<Rightarrow> frame \<Rightarrow> exn + frame" where
  "applymap f df =
     (case collect (map (\<lambda>r. collect (map f r)) (rows df)) of
        Inl e \<Rightarrow> Inl e
      | Inr rs \<Rightarrow> Inr (df\<lparr>rows := rs\<rparr>))"

text \<open>
  \<open>df.drop_duplicates()\<close>: the first of every group of equal rows is kept. A
  frame without columns is returned as it is (the library tests \<open>self.empty\<close>
  first), with all its rows.
\<close>

definition drop_duplicates :: "frame \<Rightarrow> frame" where
  "drop_duplicates df =
     (if columns df = [] then df else df\<lparr>rows := keep_first (rows df)\<rparr>)"

section \<open>\<open>query_ctgov_api\<close>\<close>

text \<open>The \<open>params\<close> dictionary, built the same way before each request.\<close>

definition make_params :: "string \<Rightarrow> string list \<Rightarrow> string option \<Rightarrow> int \<Rightarrow> int \<Rightarrow> params" where
  "make_params query return_fields search_field curr_min curr_max =
     \<lparr>expr = query, fmt = ''JSON'', fields_csv = join '','' return_fields,
      min_rnk = curr_min, max_rnk = curr_max, field = search_field\<rparr>"

text \<open>
  Lines 81 to 84, "append to dataframe": the rows of a page are appended when
  the page reports that it returned studies; otherwise the frame stays as it is.
\<close>

definition append_page :: "frame \<Rightarrow> response \<Rightarrow> frame" where
  "append_page clinical_df info =
     (if NStudiesReturned info > 0
      then concat_df clinical_df (DataFrame (StudyFields info))
      else clinical_df)"

text \<open>Lines 60 and 61: \<open>n_total\<close> clipped to \<open>n_lim\<close> when there is one.\<close>

definition limit_total :: "int option \<Rightarrow> int \<Rightarrow> int" where
  "limit_total n_lim n_total = (case n_lim of None \<Rightarrow> n_total | Some l \<Rightarrow> min n_total l)"

text \<open>
  The \<open>while n_total > curr_max\<close> loop. The network is the function \<open>get\<close>,
  standing for \<open>requests.get(study_url, params)\<close> followed by \<open>r.json()\<close>; the
  requests issued are appended to \<open>log\<close>. An exception of the request leaves
  the loop.
\<close>

function fetch_pages ::
  "(string \<Rightarrow> params \<Rightarrow> exn + response) \<Rightarrow> string \<Rightarrow> string \<Rightarrow> string list \<Rightarrow> string option \<Rightarrow>
   int \<Rightarrow> int \<Rightarrow> int \<Rightarrow> frame \<Rightarrow> params list \<Rightarrow> params list \<times> (exn + frame)" where
  "fetch_pages get study_url query return_fields search_field n_total curr_min curr_max clinical_df log =
     (if n_total > curr_max then
        (case get study_url
                (make_params query return_fields search_field
                   (curr_min + 999) (min n_total (curr_max + 999))) of
           Inl e \<Rightarrow>
             (log @ [make_params query return_fields search_field
                       (curr_min + 999) (min n_total (curr_max + 999))], Inl e)
         | Inr info \<Rightarrow>
             fetch_pages get study_url query return_fields search_field n_total
               (curr_min + 999) (min n_total (curr_max + 999))
               (append_page clinical_df info)
               (log @ [make_params query return_fields search_field
                         (curr_min + 999) (min n_total (curr_max + 999))]))
      else (log, Inr clinical_df))"
  by pat_completeness auto
termination
  by (relation "measure (\<lambda>(get, study_url, query, return_fields, search_field,
                             n_total, curr_min, curr_max, clinical_df, log).
                           nat (n_total - curr_max))") auto

text \<open>Lines 90 to 96, "clean up values".\<close>

definition clean_values :: "frame \<Rightarrow> exn + frame" where
  "clean_values clinical_df =
     (case del_column ''Rank'' clinical_df of
        Inl e \<Rightarrow> Inl e
      | Inr df1 \<Rightarrow>
          (case applymap flatten
                  (replace (Str [newline]) (Str '' '')
                    (replace (Str [tab]) (Str '' '')
                      (replace NaN (Str '''') df1))) of
             Inl e \<Rightarrow> Inl e
           | Inr df2 \<Rightarrow> Inr (replace NaN (Str '''') df2)))"

text \<open>Lines 90 to 100: the values cleaned up, then \<open>drop_duplicates\<close>.\<close>

definition clean_up :: "frame \<Rightarrow> exn + frame" where
  "clean_up clinical_df =
     (case clean_values clinical_df of
        Inl e \<Rightarrow> Inl e
      | Inr df \<Rightarrow> Inr (drop_duplicates df))"

text \<open>
  The function, with the requests it has issued. \<open>verbose\<close> is not used by the
  code. The test \<open>if n_total > curr_max\<close> around the loop is the loop's own first
  test.
\<close>

definition query_ctgov_api ::
  "(string \<Rightarrow> params \<Rightarrow> exn + response) \<Rightarrow> string \<Rightarrow> string list \<Rightarrow> bool \<Rightarrow> int option \<Rightarrow>
   string \<Rightarrow> string option \<Rightarrow> params list \<times> outcome" where
  "query_ctgov_api get query return_fields verbose n_lim study_url search_field =
     (if length query = 0 then ([], ReturnNone)
      else if length return_fields > 20
      then ([], ReturnStr ''Too many search results to return! Max 20'')
      else
        (case get study_url (make_params query return_fields search_field 1 1000) of
           Inl e \<Rightarrow> ([make_params query return_fields search_field 1 1000], Raise e)
         | Inr info \<Rightarrow>
             if NStudiesReturned info > 0 then
               (case fetch_pages get study_url query return_fields search_field
                       (limit_total n_lim (NStudiesFound info))
                       1 1000 (DataFrame (StudyFields info))
                       [make_params query return_fields search_field 1 1000] of
                  (log, Inl e) \<Rightarrow> (log, Raise e)
                | (log, Inr clinical_df) \<Rightarrow>
                    (log, case clean_up clinical_df of
                            Inl e \<Rightarrow> Raise e
                          | Inr df \<Rightarrow> ReturnFrame df))
             else ([make_params query return_fields search_field 1 1000],
                   ReturnStr ''No studies found'')))"

section \<open>Descriptions used in the statements\<close>

text \<open>
  What lines 92 to 96 make of one cell, read off the four \<open>replace\<close> calls and
  the \<open>applymap\<close> (\<open>clean_values_rows\<close> below proves that this is what
  \<open>clean_values\<close> computes): a null marker becomes the empty string, a cell
  that is exactly a tab or exactly a newline becomes a space, a list becomes its
  elements joined by tabs, everything else stays.
\<close>

fun cleaned_cell :: "cell \<Rightarrow> cell" where
  "cleaned_cell NaN = Str ''''"
| "cleaned_cell (Num n) = Num n"
| "cleaned_cell (Str s) = (if s = [tab] \<or> s = [newline] then Str '' '' else Str s)"
| "cleaned_cell (Lst xs) = Str (join [tab] (map the_Str xs))"

text \<open>
  A cell that \<open>"\t".join(x) if type(x)==list else x\<close> accepts: anything but a
  list with an element that is not a string.
\<close>

fun flattenable :: "cell \<Rightarrow> bool" where
  "flattenable (Lst xs) = list_all is_Str xs"
| "flattenable v = True"

text \<open>The cell of row \<open>i\<close> (counted from 0) in column \<open>c\<close>, if there is one.\<close>

definition cell_at :: "frame \<Rightarrow> nat \<Rightarrow> string \<Rightarrow> cell option" where
  "cell_at df i c =
     (if i < length (rows df) then map_of (zip (columns df) (rows df ! i)) c else None)"

text \<open>
  The windows \<open>(min_rnk, max_rnk)\<close> that the loop requests from the state
  \<open>curr_min\<close>, \<open>curr_max\<close>, when no request raises: lines 64 to 66 alone.
\<close>

function windows :: "int \<Rightarrow> int \<Rightarrow> int \<Rightarrow> (int \<times> int) list" where
  "windows n_total curr_min curr_max =
     (if n_total > curr_max
      then (curr_min + 999, min n_total (curr_max + 999)) #
           windows n_total (curr_min + 999) (min n_total (curr_max + 999))
      else [])"
  by pat_completeness auto
termination
  by (relation "measure (\<lambda>(n_total, curr_min, curr_max). nat (n_total - curr_max))") auto

text \<open>Two requests, one issued right after the other, as the code advances the window.\<close>

definition consecutive :: "int \<Rightarrow> params \<Rightarrow> params \<Rightarrow> bool" where
  "consecutive n_total p q \<longleftrightarrow>
     min_rnk q = max_rnk p \<and> max_rnk q = min n_total (max_rnk p + 999)"

section \<open>Fixtures: transports that stand for the network\<close>

definition default_study_url :: string where
  "default_study_url = ''https://ClinicalTrials.gov/api/query/study_fields?''"

text \<open>A network that is down: every request raises.\<close>

definition offline :: "string \<Rightarrow> params \<Rightarrow> exn + response" where
  "offline url p = Inl ConnectionError"

text \<open>A registry that finds no study for any query.\<close>

definition empty_registry :: "string \<Rightarrow> params \<Rightarrow> exn + response" where
  "empty_registry url p = Inr \<lparr>NStudiesReturned = 0, NStudiesFound = 0, StudyFields = []\<rparr>"

definition fields21 :: "string list" where
  "fields21 = replicate 21 ''NCTId''"

text \<open>
  A static registry holding the studies \<open>db\<close>, in the order of their rank. It
  stands for the remote service, which is not part of the repository: a request
  for the window \<open>min_rnk\<close> to \<open>max_rnk\<close> (ranks count from 1, both ends
  included) is answered with the studies of these ranks, each with its \<open>Rank\<close>
  field, the number of studies in the answer and the number of studies in all.
\<close>

definition ranked :: "study list \<Rightarrow> study list" where
  "ranked db = map (\<lambda>(i, s). (''Rank'', Num (int (Suc i))) # s) (enumerate 0 db)"

definition registry_page :: "study list \<Rightarrow> int \<Rightarrow> int \<Rightarrow> response" where
  "registry_page db lo hi =
     (let page = drop (nat (lo - 1)) (take (nat hi) (ranked db))
      in \<lparr>NStudiesReturned = int (length page), NStudiesFound = int (length db),
          StudyFields = page\<rparr>)"

definition registry :: "study list \<Rightarrow> string \<Rightarrow> params \<Rightarrow> exn + response" where
  "registry db url p = Inr (registry_page db (min_rnk p) (max_rnk p))"

text \<open>Synthetic studies with one field, pairwise different.\<close>

definition synthetic_study :: "nat \<Rightarrow> study" where
  "synthetic_study i = [(''NCTId'', Lst [Str (''NCT'' @ replicate i (CHR ''0''))])]"

definition synthetic_db :: "nat \<Rightarrow> study list" where
  "synthetic_db n = map synthetic_study [0..<n]"

text \<open>
  A registry that reports 2500 studies: the first window is answered with two
  studies, the second with no study at all, and the third with the second study
  again and a third study.
\<close>

definition middle_page_empty :: "string \<Rightarrow> params \<Rightarrow> exn + response" where
  "middle_page_empty url p =
     (if min_rnk p = 1
      then Inr \<lparr>NStudiesReturned = 2, NStudiesFound = 2500,
                StudyFields = [[(''Rank'', Num 1), (''NCTId'', Lst [Str ''NCT001''])],
                               [(''Rank'', Num 2), (''NCTId'', Lst [Str ''NCT002''])]]\<rparr>
      else if min_rnk p = 1000
      then Inr \<lparr>NStudiesReturned = 0, NStudiesFound = 2500, StudyFields = []\<rparr>
      else Inr \<lparr>NStudiesReturned = 2, NStudiesFound = 2500,
                StudyFields = [[(''Rank'', Num 1999), (''NCTId'', Lst [Str ''NCT002''])],
                               [(''Rank'', Num 2000), (''NCTId'', Lst [Str ''NCT003''])]]\<rparr>)"

text \<open>
  A study as the registry returns it, every field a list of strings: a summary
  of two lines and a title with a tab in it.
\<close>

definition free_text_study :: "study list" where
  "free_text_study =
     [[(''BriefSummary'', Lst [Str (''Line one'' @ [newline] @ ''line two'')]),
       (''OfficialTitle'', Lst [Str (''Phase'' @ [tab] @ ''II'')])]]"

text \<open>Pages with the kinds of cell that the clean-up treats differently.\<close>

definition two_conditions :: "study list" where
  "two_conditions =
     [[(''Condition'', Lst [Str ''Asthma'', Str ''COPD'']),
       (''BriefSummary'', Lst [Str (''Line one'' @ [newline] @ ''line two'')])]]"

definition no_condition :: "study list" where
  "no_condition = [[(''NCTId'', Lst [Str ''NCT01'']), (''Condition'', Lst [])]]"

text \<open>
  1001 studies with the one field \<open>Condition\<close>, pairwise different: the first
  has no condition at all, the second has the empty string as its only condition,
  and the others have conditions of 1 to 999 letters.
\<close>

definition colliding_db :: "study list" where
  "colliding_db =
     [(''Condition'', Lst [])] # [(''Condition'', Lst [Str ''''])] #
     map (\<lambda>i. [(''Condition'', Lst [Str (replicate (Suc i) (CHR ''x''))])]) [0..<999]"

declare windows.simps [simp del]
declare fetch_pages.simps [simp del]

section \<open>The checks before the first request\<close>

text \<open>
  C9. With an empty query string the function returns nothing (\<open>return\<close>
  without a value: neither a table nor one of the two strings), and it has issued
  no request.
\<close>

theorem empty_query_returns_nothing:
  "query_ctgov_api get [] return_fields verbose n_lim study_url search_field = ([], ReturnNone)"
  by (simp add: query_ctgov_api_def)

text \<open>
  C3, as stated, fails: the length of the query is tested before the number of
  return fields, so 21 return fields with an empty query give nothing, not the
  string about too many fields.
\<close>

theorem too_many_fields_empty_query_counterexample:
  "length fields21 > 20 \<and>
   snd (query_ctgov_api offline [] fields21 False None default_study_url None) = ReturnNone \<and>
   snd (query_ctgov_api offline [] fields21 False None default_study_url None)
     \<noteq> ReturnStr ''Too many search results to return! Max 20''"
  by (simp add: query_ctgov_api_def fields21_def)

text \<open>
  C3, amended: for a query string that is not empty, more than 20 return fields
  give the string \<open>"Too many search results to return! Max 20"\<close>, and no request
  has been issued.
\<close>

theorem too_many_fields:
  assumes "query \<noteq> []" and "length return_fields > 20"
  shows "query_ctgov_api get query return_fields verbose n_lim study_url search_field
           = ([], ReturnStr ''Too many search results to return! Max 20'')"
  using assms by (simp add: query_ctgov_api_def)

theorem too_many_fields_witness:
  "''heart'' \<noteq> [] \<and> length fields21 > 20 \<and>
   query_ctgov_api offline ''heart'' fields21 False None default_study_url None
     = ([], ReturnStr ''Too many search results to return! Max 20'')"
  using too_many_fields [of "''heart''" fields21 offline False None default_study_url None]
  by (simp add: fields21_def)

section \<open>The first page\<close>

text \<open>
  C4. When the response to the first request reports zero studies returned, the
  function returns the string \<open>"No studies found"\<close> after that one request: the
  result is the string, and no frame (neither an empty one nor a partial one).
\<close>

theorem no_studies_found:
  assumes "query \<noteq> []" and "length return_fields \<le> 20"
    and "get study_url (make_params query return_fields search_field 1 1000) = Inr info"
    and "NStudiesReturned info = 0"
  shows "query_ctgov_api get query return_fields verbose n_lim study_url search_field
           = ([make_params query return_fields search_field 1 1000],
              ReturnStr ''No studies found'')
         \<and> (\<forall>df. snd (query_ctgov_api get query return_fields verbose n_lim study_url search_field)
                \<noteq> ReturnFrame df)"
  using assms by (simp add: query_ctgov_api_def)

theorem no_studies_found_witness:
  "query_ctgov_api empty_registry ''heart'' [''NCTId''] False None default_study_url None
     = ([make_params ''heart'' [''NCTId''] None 1 1000], ReturnStr ''No studies found'')"
  using no_studies_found [of "''heart''" "[''NCTId'']" empty_registry default_study_url None
      "\<lparr>NStudiesReturned = 0, NStudiesFound = 0, StudyFields = []\<rparr>" False None]
  by (simp add: empty_registry_def)

section \<open>Cleaning up the values, cell by cell\<close>

lemma collect_map_Inr: "collect (map Inr ys) = Inr ys"
  by (induction ys) auto

lemma collect_InrD: "collect xs = Inr ys \<Longrightarrow> xs = map Inr ys"
  by (induction xs arbitrary: ys rule: collect.induct) (auto split: sum.splits)

lemma collect_Inr: "collect xs = Inr ys \<longleftrightarrow> xs = map Inr ys"
  using collect_map_Inr collect_InrD by metis

lemma flatten_pre:
  assumes "flatten (replace_cell (Str [newline]) (Str '' '')
             (replace_cell (Str [tab]) (Str '' '') (replace_cell NaN (Str '''') v))) = Inr w"
  shows "replace_cell NaN (Str '''') w = cleaned_cell v"
  using assms by (cases v) (auto simp: replace_cell_def tab_def newline_def split: if_splits)

lemma flatten_pre_ok:
  "(\<exists>w. flatten (replace_cell (Str [newline]) (Str '' '')
             (replace_cell (Str [tab]) (Str '' '') (replace_cell NaN (Str '''') v))) = Inr w)
   \<longleftrightarrow> (\<forall>xs. v = Lst xs \<longrightarrow> list_all is_Str xs)"
  by (cases v) (auto simp: replace_cell_def tab_def newline_def split: if_splits)

lemma zip_del_row:
  "zip (filter P cols) (map snd (filter (\<lambda>kv. P (fst kv)) (zip cols r)))
     = filter (\<lambda>kv. P (fst kv)) (zip cols r)"
proof (induction cols arbitrary: r)
  case Nil
  then show ?case by simp
next
  case (Cons c cols)
  then show ?case by (cases r) auto
qed

lemma collect_list_all2: "collect xs = Inr ys \<Longrightarrow> list_all2 (\<lambda>x y. x = Inr y) xs ys"
  by (drule collect_InrD) (simp add: list_all2_conv_all_nth)

lemma applymap_Inr:
  assumes "applymap f df = Inr d"
  shows "columns d = columns df"
    and "list_all2 (list_all2 (\<lambda>v w. f v = Inr w)) (rows df) (rows d)"
proof -
  from assms obtain rs where rs: "collect (map (\<lambda>r. collect (map f r)) (rows df)) = Inr rs"
    and d: "d = df\<lparr>rows := rs\<rparr>"
    by (auto simp: applymap_def split: sum.splits)
  show "columns d = columns df" using d by simp
  have "list_all2 (\<lambda>r r'. collect (map f r) = Inr r') (rows df) rs"
    using collect_list_all2 [OF rs] by (simp add: list_all2_conv_all_nth)
  then have "list_all2 (list_all2 (\<lambda>v w. f v = Inr w)) (rows df) rs"
  proof (rule list_all2_mono)
    fix r r' assume "collect (map f r) = Inr r'"
    from collect_list_all2 [OF this]
    show "list_all2 (\<lambda>v w. f v = Inr w) r r'" by (simp add: list_all2_conv_all_nth)
  qed
  then show "list_all2 (list_all2 (\<lambda>v w. f v = Inr w)) (rows df) (rows d)"
    using d by simp
qed

lemma list_all2_fun_eq: "list_all2 (\<lambda>x y. y = g x) xs ys \<Longrightarrow> ys = map g xs"
  by (induction rule: list_all2_induct) auto

lemma clean_values_rows:
  assumes "clean_values df = Inr d"
  shows "''Rank'' \<in> set (columns df)"
    and "columns d = filter (\<lambda>k. k \<noteq> ''Rank'') (columns df)"
    and "rows d = map (\<lambda>r. map cleaned_cell (del_row ''Rank'' (columns df) r)) (rows df)"
proof -
  let ?pre = "\<lambda>v. replace_cell (Str [newline]) (Str '' '')
             (replace_cell (Str [tab]) (Str '' '') (replace_cell NaN (Str '''') v))"
  let ?d1 = "\<lparr>columns = filter (\<lambda>k. k \<noteq> ''Rank'') (columns df),
                rows = map (del_row ''Rank'' (columns df)) (rows df)\<rparr>"
  let ?d4 = "replace (Str [newline]) (Str '' '') (replace (Str [tab]) (Str '' '')
                      (replace NaN (Str '''') ?d1))"
  from assms show rank: "''Rank'' \<in> set (columns df)"
    by (auto simp: clean_values_def del_column_def split: if_splits)
  then have d1: "del_column ''Rank'' df = Inr ?d1"
    by (simp add: del_column_def)
  from assms d1 obtain d5 where d5: "applymap flatten ?d4 = Inr d5"
    and d: "d = replace NaN (Str '''') d5"
    by (auto simp: clean_values_def split: sum.splits)
  have rows4: "rows ?d4 = map (map ?pre) (map (del_row ''Rank'' (columns df)) (rows df))"
    by (simp add: replace_def comp_def)
  show "columns d = filter (\<lambda>k. k \<noteq> ''Rank'') (columns df)"
    using d applymap_Inr(1) [OF d5] by (simp add: replace_def)
  have "list_all2 (list_all2 (\<lambda>v w. flatten v = Inr w)) (rows ?d4) (rows d5)"
    by (rule applymap_Inr(2) [OF d5])
  then have "list_all2 (list_all2 (\<lambda>v w. flatten (?pre v) = Inr w))
               (map (del_row ''Rank'' (columns df)) (rows df)) (rows d5)"
    unfolding rows4 by (simp add: list_all2_map1)
  then have "list_all2 (list_all2 (\<lambda>v w. w = cleaned_cell v))
               (map (del_row ''Rank'' (columns df)) (rows df))
               (map (map (replace_cell NaN (Str ''''))) (rows d5))"
    unfolding list_all2_map2
    by (rule list_all2_mono, elim list_all2_mono) (simp add: flatten_pre)
  then have "list_all2 (\<lambda>r r'. r' = map cleaned_cell r)
               (map (del_row ''Rank'' (columns df)) (rows df))
               (map (map (replace_cell NaN (Str ''''))) (rows d5))"
    by (rule list_all2_mono) (rule list_all2_fun_eq)
  from list_all2_fun_eq [OF this]
  show "rows d = map (\<lambda>r. map cleaned_cell (del_row ''Rank'' (columns df) r)) (rows df)"
    using d by (simp add: replace_def comp_def)
qed

lemma collect_Inl: "collect xs = Inl e \<Longrightarrow> Inl e \<in> set xs"
  by (induction xs rule: collect.induct) (auto split: sum.splits)

lemma collect_cases:
  obtains ys where "collect xs = Inr ys" "xs = map Inr ys"
  | e where "collect xs = Inl e" "Inl e \<in> set xs"
  by (cases "collect xs") (auto dest: collect_Inl collect_InrD)

lemma map_of_del_row:
  assumes "c \<noteq> k"
  shows "map_of (zip (filter (\<lambda>k'. k' \<noteq> k) cols) (map f (del_row k cols r))) c
           = map_option f (map_of (zip cols r) c)"
proof -
  have "zip (filter (\<lambda>k'. k' \<noteq> k) cols) (map f (del_row k cols r))
          = map (\<lambda>(a, v). (a, f v)) (filter (\<lambda>kv. fst kv \<noteq> k) (zip cols r))"
    unfolding del_row_def
    by (subst zip_del_row [of "\<lambda>k'. k' \<noteq> k" cols r, symmetric])
       (simp add: zip_map2 case_prod_unfold del: zip_del_row)
  then show ?thesis
    using assms map_of_filter [of "\<lambda>a. a \<noteq> k" "zip cols r"]
    by (simp add: map_of_map restrict_map_def)
qed

lemma cell_at_clean_values:
  assumes "clean_values df = Inr d" and "c \<noteq> ''Rank''"
  shows "cell_at d i c = map_option cleaned_cell (cell_at df i c)"
  using clean_values_rows(2,3) [OF assms(1)] assms(2)
  by (simp add: cell_at_def map_of_del_row)

section \<open>Lists and strings\<close>

lemma set_keep_first [simp]: "set (keep_first xs) = set xs"
  by (induction xs rule: keep_first.induct) auto

lemma distinct_keep_first [simp]: "distinct (keep_first xs)"
  by (induction xs rule: keep_first.induct) auto

lemma keep_first_distinct: "distinct xs \<Longrightarrow> keep_first xs = xs"
  by (induction xs) auto

lemma join_split:
  assumes "ss \<noteq> []" and "\<forall>s\<in>set ss. c \<notin> set s"
  shows "split c (join [c] ss) = ss"
  using assms
proof (induction "[c]" ss rule: join.induct)
  case 1
  then show ?case by simp
next
  case (2 x)
  then show ?case by (induction x) auto
next
  case (3 x y ys)
  then have "split c (join [c] (y # ys)) = y # ys" by simp
  moreover have "c \<notin> set x" using 3 by simp
  ultimately show ?case by (induction x) auto
qed

section \<open>The table that is returned\<close>


section \<open>The loop over the page windows\<close>

lemma fetch_pages_successively:
  assumes "successively (consecutive n_total) log" and "log \<noteq> []"
    and "max_rnk (last log) = curr_max" and "curr_min + 999 = curr_max"
  shows "successively (consecutive n_total)
           (fst (fetch_pages get study_url query return_fields search_field
                   n_total curr_min curr_max clinical_df log))"
  using assms
proof (induction get study_url query return_fields search_field
                   n_total curr_min curr_max clinical_df log rule: fetch_pages.induct)
  case (1 get study_url query return_fields search_field n_total curr_min curr_max clinical_df log)
  let ?p = "make_params query return_fields search_field (curr_min + 999) (min n_total (curr_max + 999))"
  show ?case
  proof (cases "n_total > curr_max")
    case False
    then show ?thesis using 1(2) by (subst fetch_pages.simps) simp
  next
    case True
    have ext: "successively (consecutive n_total) (log @ [?p])"
      using 1(2-5) by (simp add: successively_append_iff consecutive_def make_params_def)
    show ?thesis
    proof (cases "get study_url ?p")
      case (Inl e)
      then show ?thesis using True ext by (subst fetch_pages.simps) simp
    next
      case (Inr info)
      show ?thesis
      proof (cases "n_total > curr_max + 999")
        case big: True
        have "successively (consecutive n_total)
           (fst (fetch_pages get study_url query return_fields search_field n_total
               (curr_min + 999) (min n_total (curr_max + 999))
               (append_page clinical_df info) (log @ [?p])))"
          using True Inr ext 1(5) big
          by (intro 1(1)) (simp_all add: make_params_def)
        then show ?thesis using True Inr by (subst fetch_pages.simps) simp
      next
        case small: False
        have "fetch_pages get study_url query return_fields search_field n_total
               (curr_min + 999) (min n_total (curr_max + 999))
               (append_page clinical_df info) (log @ [?p])
              = (log @ [?p], Inr (append_page clinical_df info))"
          using small by (subst fetch_pages.simps) simp
        then show ?thesis using True Inr ext by (subst fetch_pages.simps) simp
      qed
    qed
  qed
qed

lemma fetch_pages_ok:
  assumes "\<And>w. w \<in> set (windows n_total curr_min curr_max) \<Longrightarrow>
             get study_url (make_params query return_fields search_field (fst w) (snd w)) = Inr (resp w)"
  shows "fetch_pages get study_url query return_fields search_field
                   n_total curr_min curr_max clinical_df log
         = (log @ map (\<lambda>w. make_params query return_fields search_field (fst w) (snd w))
                    (windows n_total curr_min curr_max),
            Inr (foldl append_page clinical_df (map resp (windows n_total curr_min curr_max))))"
  using assms
proof (induction n_total curr_min curr_max arbitrary: clinical_df log rule: windows.induct)
  case (1 n_total curr_min curr_max)
  show ?case
  proof (cases "n_total > curr_max")
    case False
    then show ?thesis
      by (subst fetch_pages.simps, subst (1 2) windows.simps) simp
  next
    case True
    let ?w = "(curr_min + 999, min n_total (curr_max + 999))"
    let ?ws = "windows n_total (curr_min + 999) (min n_total (curr_max + 999))"
    have ws: "windows n_total curr_min curr_max = ?w # ?ws"
      using True by (subst windows.simps) simp
    have first: "get study_url (make_params query return_fields search_field
                   (curr_min + 999) (min n_total (curr_max + 999))) = Inr (resp ?w)"
      using 1(2) [of ?w] ws by simp
    have "fetch_pages get study_url query return_fields search_field n_total
            (curr_min + 999) (min n_total (curr_max + 999)) (append_page clinical_df (resp ?w))
            (log @ [make_params query return_fields search_field (fst ?w) (snd ?w)])
          = ((log @ [make_params query return_fields search_field (fst ?w) (snd ?w)]) @
               map (\<lambda>w. make_params query return_fields search_field (fst w) (snd w)) ?ws,
             Inr (foldl append_page (append_page clinical_df (resp ?w)) (map resp ?ws)))"
      using True 1(2) ws by (intro 1(1)) simp_all
    then show ?thesis
      using True first ws by (subst fetch_pages.simps) simp
  qed
qed

lemma fetch_pages_Inr:
  assumes "fetch_pages get study_url query return_fields search_field
                   n_total curr_min curr_max clinical_df log = (log', Inr df')"
  shows "\<exists>infos. map (\<lambda>w. get study_url (make_params query return_fields search_field (fst w) (snd w)))
                  (windows n_total curr_min curr_max) = map Inr infos
           \<and> log' = log @ map (\<lambda>w. make_params query return_fields search_field (fst w) (snd w))
                    (windows n_total curr_min curr_max)
           \<and> df' = foldl append_page clinical_df infos"
  using assms
proof (induction n_total curr_min curr_max arbitrary: clinical_df log rule: windows.induct)
  case (1 n_total curr_min curr_max)
  show ?case
  proof (cases "n_total > curr_max")
    case False
    then show ?thesis
      using 1(2) by (subst (1 2) windows.simps) (simp add: fetch_pages.simps)
  next
    case True
    let ?w = "(curr_min + 999, min n_total (curr_max + 999))"
    let ?ws = "windows n_total (curr_min + 999) (min n_total (curr_max + 999))"
    let ?mk = "\<lambda>w. make_params query return_fields search_field (fst w) (snd w)"
    have ws: "windows n_total curr_min curr_max = ?w # ?ws"
      using True by (subst windows.simps) simp
    from 1(2) True obtain info where info: "get study_url (?mk ?w) = Inr info"
      and rest: "fetch_pages get study_url query return_fields search_field n_total
            (curr_min + 999) (min n_total (curr_max + 999)) (append_page clinical_df info)
            (log @ [?mk ?w]) = (log', Inr df')"
      by (subst (asm) fetch_pages.simps) (auto split: sum.splits)
    from 1(1) [OF True rest] obtain infos where
      "map (\<lambda>w. get study_url (?mk w)) ?ws = map Inr infos"
      "log' = (log @ [?mk ?w]) @ map ?mk ?ws"
      "df' = foldl append_page (append_page clinical_df info) infos"
      by blast
    then show ?thesis
      using info ws by (intro exI [of _ "info # infos"]) simp
  qed
qed

lemma windows_cover:
  assumes "curr_min + 999 = curr_max" and "curr_max < r" and "r \<le> n_total"
  shows "\<exists>w\<in>set (windows n_total curr_min curr_max). fst w \<le> r \<and> r \<le> snd w"
  using assms
proof (induction n_total curr_min curr_max rule: windows.induct)
  case (1 n_total curr_min curr_max)
  let ?w = "(curr_min + 999, min n_total (curr_max + 999))"
  let ?ws = "windows n_total (curr_min + 999) (min n_total (curr_max + 999))"
  have gt: "n_total > curr_max" using 1(3,4) by simp
  then have ws: "windows n_total curr_min curr_max = ?w # ?ws"
    by (subst windows.simps) simp
  show ?case
  proof (cases "r \<le> min n_total (curr_max + 999)")
    case True
    then show ?thesis using ws 1(2,3) by simp
  next
    case False
    then have "curr_max + 999 < r" and "min n_total (curr_max + 999) = curr_max + 999"
      using 1(4) by simp_all
    then have "\<exists>w\<in>set ?ws. fst w \<le> r \<and> r \<le> snd w"
      using gt 1(2,4) by (intro 1(1)) simp_all
    then show ?thesis using ws by auto
  qed
qed

lemma windows_last:
  assumes "n_total > curr_max"
  shows "windows n_total curr_min curr_max \<noteq> [] \<and>
         snd (last (windows n_total curr_min curr_max)) = n_total"
  using assms
proof (induction n_total curr_min curr_max rule: windows.induct)
  case (1 n_total curr_min curr_max)
  let ?w = "(curr_min + 999, min n_total (curr_max + 999))"
  let ?ws = "windows n_total (curr_min + 999) (min n_total (curr_max + 999))"
  have ws: "windows n_total curr_min curr_max = ?w # ?ws"
    using 1(2) by (subst windows.simps) simp
  show ?case
  proof (cases "n_total > min n_total (curr_max + 999)")
    case True
    then show ?thesis using 1 ws by simp
  next
    case False
    then have "?ws = []" by (subst windows.simps) simp
    then show ?thesis using ws False by simp
  qed
qed

lemma windows_none: "n_total \<le> curr_max \<Longrightarrow> windows n_total curr_min curr_max = []"
  by (subst windows.simps) simp

section \<open>The function as a whole\<close>

lemma query_first_page:
  assumes "query \<noteq> []" and "length return_fields \<le> 20"
    and "get study_url (make_params query return_fields search_field 1 1000) = Inr info"
    and "NStudiesReturned info > 0"
  shows "query_ctgov_api get query return_fields verbose n_lim study_url search_field
         = (case fetch_pages get study_url query return_fields search_field
                   (limit_total n_lim (NStudiesFound info)) 1 1000 (DataFrame (StudyFields info))
                   [make_params query return_fields search_field 1 1000] of
              (log, Inl e) \<Rightarrow> (log, Raise e)
            | (log, Inr clinical_df) \<Rightarrow>
                (log, case clean_up clinical_df of Inl e \<Rightarrow> Raise e | Inr df \<Rightarrow> ReturnFrame df))"
  using assms by (simp add: query_ctgov_api_def)

lemma query_log_successively:
  assumes "query \<noteq> []" and "length return_fields \<le> 20"
    and "get study_url (make_params query return_fields search_field 1 1000) = Inr info"
    and "NStudiesReturned info > 0"
  shows "successively (consecutive (limit_total n_lim (NStudiesFound info)))
           (fst (query_ctgov_api get query return_fields verbose n_lim study_url search_field))"
proof -
  let ?p = "make_params query return_fields search_field 1 1000"
  let ?n = "limit_total n_lim (NStudiesFound info)"
  let ?run = "fetch_pages get study_url query return_fields search_field ?n 1 1000
                (DataFrame (StudyFields info)) [?p]"
  have "successively (consecutive ?n) (fst ?run)"
    by (rule fetch_pages_successively) (simp_all add: make_params_def)
  moreover have "fst (query_ctgov_api get query return_fields verbose n_lim study_url search_field)
                   = fst ?run"
    using assms by (simp add: query_first_page split: prod.splits sum.splits)
  ultimately show ?thesis by simp
qed

lemma query_ReturnFrame:
  assumes "query_ctgov_api get query return_fields verbose n_lim study_url search_field
             = (log, ReturnFrame t)"
  shows "\<exists>info acc. query \<noteq> [] \<and> length return_fields \<le> 20
           \<and> get study_url (make_params query return_fields search_field 1 1000) = Inr info
           \<and> NStudiesReturned info > 0
           \<and> fetch_pages get study_url query return_fields search_field
                (limit_total n_lim (NStudiesFound info)) 1 1000 (DataFrame (StudyFields info))
                [make_params query return_fields search_field 1 1000] = (log, Inr acc)
           \<and> clean_up acc = Inr t"
  using assms
  by (auto simp: query_ctgov_api_def split: if_splits sum.splits prod.splits)

lemma query_log_cover:
  assumes "query_ctgov_api get query return_fields verbose n_lim study_url search_field
             = (log, ReturnFrame t)"
    and "get study_url (make_params query return_fields search_field 1 1000) = Inr info"
  shows "log = make_params query return_fields search_field 1 1000 #
           map (\<lambda>w. make_params query return_fields search_field (fst w) (snd w))
             (windows (limit_total n_lim (NStudiesFound info)) 1 1000)"
    and "1 \<le> r \<Longrightarrow> r \<le> max 1000 (limit_total n_lim (NStudiesFound info)) \<Longrightarrow>
           \<exists>p\<in>set log. min_rnk p \<le> r \<and> r \<le> max_rnk p"
    and "max_rnk (last log) = max 1000 (limit_total n_lim (NStudiesFound info))"
proof -
  let ?n = "limit_total n_lim (NStudiesFound info)"
  let ?mk = "\<lambda>w. make_params query return_fields search_field (fst w) (snd w)"
  from query_ReturnFrame [OF assms(1)] assms(2) obtain acc where
    run: "fetch_pages get study_url query return_fields search_field ?n 1 1000
            (DataFrame (StudyFields info)) [make_params query return_fields search_field 1 1000]
          = (log, Inr acc)"
    by auto
  from fetch_pages_Inr [OF run]
  show log: "log = make_params query return_fields search_field 1 1000 # map ?mk (windows ?n 1 1000)"
    by auto
  show "max_rnk (last log) = max 1000 ?n"
  proof (cases "?n > 1000")
    case True
    from windows_last [OF this, of 1] show ?thesis
      using True by (simp add: log last_map make_params_def)
  next
    case False
    then show ?thesis by (simp add: log windows_none make_params_def)
  qed
  assume r: "1 \<le> r" "r \<le> max 1000 ?n"
  show "\<exists>p\<in>set log. min_rnk p \<le> r \<and> r \<le> max_rnk p"
  proof (cases "r \<le> 1000")
    case True
    then show ?thesis using r by (simp add: log make_params_def)
  next
    case False
    then have "\<exists>w\<in>set (windows ?n 1 1000). fst w \<le> r \<and> r \<le> snd w"
      using r by (intro windows_cover) simp_all
    then show ?thesis by (auto simp: log make_params_def)
  qed
qed

text \<open>
  C1, amended. When the total (clipped to the limit) exceeds 1000, every window
  after the first starts at the upper bound of the window before it, not one
  past it, so two consecutive windows share that one rank; its upper bound is
  the lesser of the previous upper bound plus 999 and \<open>n_total\<close>. When the
  function returns a table, the windows start at rank 1, end at \<open>n_total\<close> and
  leave no rank of 1 to \<open>n_total\<close> out.
\<close>

theorem page_windows_overlap_by_one:
  assumes "query \<noteq> []" and "length return_fields \<le> 20"
    and "get study_url (make_params query return_fields search_field 1 1000) = Inr info"
    and "NStudiesReturned info > 0"
    and "n_total = limit_total n_lim (NStudiesFound info)" and "n_total > 1000"
    and "query_ctgov_api get query return_fields verbose n_lim study_url search_field = (log, out)"
  shows "(\<forall>i. Suc i < length log \<longrightarrow>
            min_rnk (log ! Suc i) = max_rnk (log ! i) \<and>
            max_rnk (log ! Suc i) = min n_total (max_rnk (log ! i) + 999))
         \<and> ((\<exists>t. out = ReturnFrame t) \<longrightarrow>
              length log \<ge> 2 \<and> min_rnk (hd log) = 1 \<and> max_rnk (last log) = n_total \<and>
              (\<forall>r. 1 \<le> r \<and> r \<le> n_total \<longrightarrow> (\<exists>p\<in>set log. min_rnk p \<le> r \<and> r \<le> max_rnk p)))"
proof (intro conjI impI)
  have "successively (consecutive n_total) log"
    using query_log_successively [of query return_fields get study_url search_field info
        n_lim verbose] assms(1-5,7) by simp
  then show "\<forall>i. Suc i < length log \<longrightarrow>
            min_rnk (log ! Suc i) = max_rnk (log ! i) \<and>
            max_rnk (log ! Suc i) = min n_total (max_rnk (log ! i) + 999)"
    by (simp add: successively_conv_nth consecutive_def)
next
  assume "\<exists>t. out = ReturnFrame t"
  then obtain t where t: "query_ctgov_api get query return_fields verbose n_lim study_url search_field
                       = (log, ReturnFrame t)"
    using assms(7) by auto
  note facts = query_log_cover [OF t assms(3)]
  show "min_rnk (hd log) = 1" by (simp add: facts(1) make_params_def)
  show "max_rnk (last log) = n_total" using facts(3) assms(5,6) by simp
  show "2 \<le> length log"
    using windows_last [of 1000 n_total 1] assms(5,6)
    by (cases "windows n_total 1 1000") (simp_all add: facts(1))
  show "\<forall>r. 1 \<le> r \<and> r \<le> n_total \<longrightarrow> (\<exists>p\<in>set log. min_rnk p \<le> r \<and> r \<le> max_rnk p)"
    using facts(2) assms(5) by auto
qed

lemma length_rows_DataFrame [simp]: "length (rows (DataFrame info)) = length info"
  by (simp add: DataFrame_def Let_def)

lemma length_rows_concat_df [simp]:
  "length (rows (concat_df a b)) = length (rows a) + length (rows b)"
  by (simp add: concat_df_def Let_def)

lemma length_rows_foldl_append_page:
  "length (rows (foldl append_page df infos))
     = length (rows df) +
       sum_list (map (\<lambda>i. length (StudyFields i)) (filter (\<lambda>i. NStudiesReturned i > 0) infos))"
  by (induction infos arbitrary: df) (simp_all add: append_page_def)


lemma list_all2_setD1: "list_all2 R xs ys \<Longrightarrow> x \<in> set xs \<Longrightarrow> \<exists>y\<in>set ys. R x y"
  by (induction rule: list_all2_induct) auto

lemma list_all_is_Str: "list_all is_Str xs \<Longrightarrow> xs = map Str (map the_Str xs)"
proof (induction xs)
  case Nil
  then show ?case by simp
next
  case (Cons x xs)
  then show ?case by (cases x) simp_all
qed

lemma clean_values_flatten:
  assumes "clean_values df = Inr d" and "r \<in> set (rows df)"
    and "v \<in> set (del_row ''Rank'' (columns df) r)"
  shows "\<exists>w. flatten (replace_cell (Str [newline]) (Str '' '')
             (replace_cell (Str [tab]) (Str '' '') (replace_cell NaN (Str '''') v))) = Inr w"
proof -
  let ?pre = "\<lambda>v. replace_cell (Str [newline]) (Str '' '')
             (replace_cell (Str [tab]) (Str '' '') (replace_cell NaN (Str '''') v))"
  let ?d1 = "\<lparr>columns = filter (\<lambda>k. k \<noteq> ''Rank'') (columns df),
                rows = map (del_row ''Rank'' (columns df)) (rows df)\<rparr>"
  let ?d4 = "replace (Str [newline]) (Str '' '') (replace (Str [tab]) (Str '' '')
                      (replace NaN (Str '''') ?d1))"
  have "''Rank'' \<in> set (columns df)" by (rule clean_values_rows(1) [OF assms(1)])
  then have d1: "del_column ''Rank'' df = Inr ?d1"
    by (simp add: del_column_def)
  from assms(1) d1 obtain d5 where d5: "applymap flatten ?d4 = Inr d5"
    by (auto simp: clean_values_def split: sum.splits)
  have rows4: "rows ?d4 = map (map ?pre) (map (del_row ''Rank'' (columns df)) (rows df))"
    by (simp add: replace_def comp_def)
  have all: "list_all2 (list_all2 (\<lambda>v w. flatten v = Inr w)) (rows ?d4) (rows d5)"
    by (rule applymap_Inr(2) [OF d5])
  have "map ?pre (del_row ''Rank'' (columns df) r) \<in> set (rows ?d4)"
    unfolding rows4 using assms(2) by simp
  from list_all2_setD1 [OF all this] obtain r' where
    "list_all2 (\<lambda>v w. flatten v = Inr w) (map ?pre (del_row ''Rank'' (columns df) r)) r'"
    by blast
  moreover have "?pre v \<in> set (map ?pre (del_row ''Rank'' (columns df) r))"
    using assms(3) by simp
  ultimately show ?thesis
    using list_all2_setD1 by fastforce
qed

lemma cell_at_in_del_row:
  assumes "cell_at df i c = Some v" and "c \<noteq> k"
  shows "rows df ! i \<in> set (rows df)" and "v \<in> set (del_row k (columns df) (rows df ! i))"
proof -
  from assms(1) have i: "i < length (rows df)"
    and m: "map_of (zip (columns df) (rows df ! i)) c = Some v"
    by (auto simp: cell_at_def split: if_splits)
  show "rows df ! i \<in> set (rows df)" using i by simp
  from m have "(c, v) \<in> set (zip (columns df) (rows df ! i))" by (rule map_of_SomeD)
  then have "(c, v) \<in> set (filter (\<lambda>kv. fst kv \<noteq> k) (zip (columns df) (rows df ! i)))"
    using assms(2) by simp
  then show "v \<in> set (del_row k (columns df) (rows df ! i))"
    unfolding del_row_def by force
qed

lemma clean_up_Inr:
  assumes "clean_up df = Inr t"
  obtains d where "clean_values df = Inr d" and "t = drop_duplicates d"
    and "set (rows t) = set (rows d)" and "columns t = columns d"
  using assms by (auto simp: clean_up_def drop_duplicates_def split: sum.splits)

text \<open>
  C5, amended. A list cell outside the \<open>Rank\<close> column holds strings only
  (or else the clean-up raises), and the cell at the same place of the cleaned
  frame is these strings joined by tabs; the row stays in the returned table.
  Splitting the joined string at the tabs gives the list back, and so its
  length, when the list is not empty and no element contains a tab.
\<close>

theorem list_cell_tab_joined:
  assumes "clean_up df = Inr t" and "cell_at df i c = Some (Lst xs)" and "c \<noteq> ''Rank''"
  shows "\<exists>d ss. clean_values df = Inr d \<and> t = drop_duplicates d \<and> rows d ! i \<in> set (rows t)
           \<and> xs = map Str ss
           \<and> cell_at d i c = Some (Str (join [tab] ss))
           \<and> (ss \<noteq> [] \<and> (\<forall>s\<in>set ss. tab \<notin> set s) \<longrightarrow>
                split tab (join [tab] ss) = ss \<and> length (split tab (join [tab] ss)) = length xs)"
proof -
  from assms(1) obtain d where d: "clean_values df = Inr d" and t: "t = drop_duplicates d"
    and st: "set (rows t) = set (rows d)"
    by (rule clean_up_Inr)
  have "\<exists>w. flatten (replace_cell (Str [newline]) (Str '' '')
             (replace_cell (Str [tab]) (Str '' '') (replace_cell NaN (Str '''') (Lst xs)))) = Inr w"
    using cell_at_in_del_row [OF assms(2,3)] by (intro clean_values_flatten [OF d])
  then have strs: "list_all is_Str xs"
    by (auto simp: replace_cell_def split: if_splits)
  define ss where "ss = map the_Str xs"
  have xs: "xs = map Str ss" unfolding ss_def using strs by (rule list_all_is_Str)
  have "i < length (rows df)" using assms(2) by (auto simp: cell_at_def split: if_splits)
  then have "i < length (rows d)" using clean_values_rows(3) [OF d] by simp
  then have "rows d ! i \<in> set (rows t)" using st by simp
  moreover have "cell_at d i c = Some (Str (join [tab] ss))"
    using cell_at_clean_values [OF d assms(3), of i] assms(2) by (simp add: ss_def)
  moreover have "ss \<noteq> [] \<and> (\<forall>s\<in>set ss. tab \<notin> set s) \<longrightarrow>
                split tab (join [tab] ss) = ss \<and> length (split tab (join [tab] ss)) = length xs"
    using join_split [of ss tab] xs by auto
  ultimately show ?thesis using d t xs by blast
qed

lemma length_ranked [simp]: "length (ranked db) = length db"
  by (simp add: ranked_def)

lemma length_synthetic_db [simp]: "length (synthetic_db n) = n"
  by (simp add: synthetic_db_def)

lemma registry_first_page:
  "registry db url (make_params query return_fields search_field lo hi) = Inr (registry_page db lo hi)"
  by (simp add: registry_def make_params_def)

lemma registry_page_found [simp]:
  "NStudiesFound (registry_page db lo hi) = int (length db)"
  by (simp add: registry_page_def Let_def)

lemma registry_page_studies:
  "StudyFields (registry_page db lo hi) = drop (nat (lo - 1)) (take (nat hi) (ranked db))"
  by (simp add: registry_page_def Let_def)

lemma registry_page_returned:
  "NStudiesReturned (registry_page db lo hi)
     = int (length (drop (nat (lo - 1)) (take (nat hi) (ranked db))))"
  by (simp add: registry_page_def Let_def)

lemma query_registry:
  assumes "query \<noteq> []" and "length return_fields \<le> 20" and "db \<noteq> []"
    and "n_total = limit_total n_lim (int (length db))"
  shows "query_ctgov_api (registry db) query return_fields verbose n_lim study_url search_field
         = (make_params query return_fields search_field 1 1000 #
              map (\<lambda>w. make_params query return_fields search_field (fst w) (snd w))
                (windows n_total 1 1000),
            case clean_up
                   (foldl append_page (DataFrame (StudyFields (registry_page db 1 1000)))
                      (map (\<lambda>w. registry_page db (fst w) (snd w)) (windows n_total 1 1000))) of
              Inl e \<Rightarrow> Raise e
            | Inr df \<Rightarrow> ReturnFrame df)"
proof -
  have pos: "NStudiesReturned (registry_page db 1 1000) > 0"
    using assms(3) by (simp add: registry_page_returned)
  have "fetch_pages (registry db) study_url query return_fields search_field n_total 1 1000
          (DataFrame (StudyFields (registry_page db 1 1000)))
          [make_params query return_fields search_field 1 1000]
        = ([make_params query return_fields search_field 1 1000] @
             map (\<lambda>w. make_params query return_fields search_field (fst w) (snd w))
               (windows n_total 1 1000),
           Inr (foldl append_page (DataFrame (StudyFields (registry_page db 1 1000)))
                  (map (\<lambda>w. registry_page db (fst w) (snd w)) (windows n_total 1 1000))))"
    by (rule fetch_pages_ok) (rule registry_first_page)
  moreover have "registry db study_url (make_params query return_fields search_field 1 1000)
                   = Inr (registry_page db 1 1000)"
    by (rule registry_first_page)
  ultimately show ?thesis
    using assms(4) pos
    by (simp add: query_first_page [OF assms(1,2) _ pos])
qed

lemma windows_1500: "windows 1500 1 1000 = [(1000, 1500)]"
  by (simp add: windows.simps)

lemma log_1500:
  "fst (query_ctgov_api (registry (synthetic_db 1500)) ''heart'' [''NCTId''] False None
          default_study_url None)
   = [make_params ''heart'' [''NCTId''] None 1 1000, make_params ''heart'' [''NCTId''] None 1000 1500]"
proof -
  have "synthetic_db 1500 \<noteq> []"
    using length_synthetic_db [of 1500] by (metis length_0_conv zero_neq_numeral)
  from query_registry [OF _ _ this, of "''heart''" "[''NCTId'']" 1500 None False default_study_url None]
  show ?thesis by (simp add: limit_total_def windows_1500)
qed

section \<open>The table of the studies that were fetched\<close>

lemma keep_first_removeAll: "keep_first (removeAll x xs) = removeAll x (keep_first xs)"
proof (induction xs rule: keep_first.induct)
  case 1
  then show ?case by simp
next
  case (2 y ys)
  then show ?case by (auto simp: removeAll_commute)
qed

lemma keep_first_append:
  "keep_first (xs @ ys) = keep_first xs @ filter (\<lambda>y. y \<notin> set xs) (keep_first ys)"
proof (induction xs arbitrary: ys rule: keep_first.induct)
  case 1
  then show ?case by simp
next
  case (2 x xs)
  have "filter (\<lambda>y. y \<notin> set (removeAll x xs)) (removeAll x zs)
          = filter (\<lambda>y. y \<notin> set (x # xs)) zs" for zs
    by (induction zs) auto
  then show ?case using 2 [of "removeAll x ys"]
    by (simp add: keep_first_removeAll)
qed

lemma keep_first_same_prefix:
  assumes "keep_first xs = keep_first xs'"
  shows "keep_first (xs @ ys) = keep_first (xs' @ ys)"
proof -
  have "set xs = set xs'" using assms set_keep_first by metis
  then show ?thesis using assms by (simp add: keep_first_append)
qed

lemma keep_first_repeat:
  "keep_first (xs @ x @ x @ ys) = keep_first (xs @ x @ ys)"
proof -
  have "filter (\<lambda>y. y \<notin> set xs \<and> y \<notin> set x) (keep_first x) = []"
    by (simp add: filter_empty_conv)
  then show ?thesis
    by (simp add: keep_first_append [of xs] keep_first_append [of x] conj_commute)
qed

lemma get_cell_zip_map:
  "get_cell (zip cols (map f cols)) c = (if c \<in> set cols then f c else NaN)"
  by (simp add: get_cell_def map_of_zip_map)

lemma get_cell_missing: "c \<notin> fst ` set d \<Longrightarrow> get_cell d c = NaN"
  by (simp add: get_cell_def map_of_eq_None_iff [THEN iffD2])

lemma set_columns_DataFrame: "set (columns (DataFrame info)) = (\<Union>d\<in>set info. fst ` set d)"
  by (simp add: DataFrame_def Let_def)

lemma concat_df_DataFrame: "concat_df (DataFrame xs) (DataFrame ys) = DataFrame (xs @ ys)"
proof -
  let ?cx = "columns (DataFrame xs)" and ?cy = "columns (DataFrame ys)"
  let ?c = "columns (DataFrame (xs @ ys))"
  have cols: "?cx @ filter (\<lambda>c. c \<notin> set ?cx) ?cy = ?c"
    by (simp add: DataFrame_def Let_def keep_first_append)
  have rx: "reindex ?cx ?c (map (get_cell d) ?cx) = map (get_cell d) ?c" if "d \<in> set xs" for d
    unfolding reindex_def
  proof (rule map_cong [OF refl])
    fix c assume "c \<in> set ?c"
    show "get_cell (zip ?cx (map (get_cell d) ?cx)) c = get_cell d c"
    proof (cases "c \<in> set ?cx")
      case True
      then show ?thesis by (simp add: get_cell_zip_map)
    next
      case False
      then have "c \<notin> fst ` set d" using that by (auto simp: set_columns_DataFrame)
      then show ?thesis using False by (simp add: get_cell_zip_map get_cell_missing)
    qed
  qed
  have ry: "reindex ?cy ?c (map (get_cell d) ?cy) = map (get_cell d) ?c" if "d \<in> set ys" for d
    unfolding reindex_def
  proof (rule map_cong [OF refl])
    fix c assume "c \<in> set ?c"
    show "get_cell (zip ?cy (map (get_cell d) ?cy)) c = get_cell d c"
    proof (cases "c \<in> set ?cy")
      case True
      then show ?thesis by (simp add: get_cell_zip_map)
    next
      case False
      then have "c \<notin> fst ` set d" using that by (auto simp: set_columns_DataFrame)
      then show ?thesis using False by (simp add: get_cell_zip_map get_cell_missing)
    qed
  qed
  have "columns (concat_df (DataFrame xs) (DataFrame ys)) = ?c"
    using cols by (simp add: concat_df_def Let_def)
  moreover have "rows (concat_df (DataFrame xs) (DataFrame ys)) = rows (DataFrame (xs @ ys))"
  proof -
    have "rows (concat_df (DataFrame xs) (DataFrame ys))
            = map (reindex ?cx ?c) (rows (DataFrame xs)) @ map (reindex ?cy ?c) (rows (DataFrame ys))"
      using cols by (simp add: concat_df_def Let_def)
    also have "map (reindex ?cx ?c) (rows (DataFrame xs)) = map (\<lambda>d. map (get_cell d) ?c) xs"
      using rx by (simp add: DataFrame_def Let_def)
    also have "map (reindex ?cy ?c) (rows (DataFrame ys)) = map (\<lambda>d. map (get_cell d) ?c) ys"
      using ry by (simp add: DataFrame_def Let_def)
    finally show ?thesis by (simp add: DataFrame_def Let_def)
  qed
  ultimately show ?thesis by simp
qed

lemma foldl_append_page_DataFrame:
  assumes "\<forall>i\<in>set infos. NStudiesReturned i > 0"
  shows "foldl append_page (DataFrame acc) infos = DataFrame (acc @ concat (map StudyFields infos))"
  using assms
  by (induction infos arbitrary: acc) (simp_all add: append_page_def concat_df_DataFrame)

lemma collect_all_Inr:
  assumes "\<And>x. x \<in> set xs \<Longrightarrow> \<exists>y. f x = Inr y"
  shows "\<exists>ys. collect (map f xs) = Inr ys"
  using assms
proof (induction xs)
  case Nil
  then show ?case by simp
next
  case (Cons x xs)
  then obtain y ys where "f x = Inr y" and "collect (map f xs) = Inr ys"
    by (metis list.set_intros)
  then show ?case by simp
qed

lemma clean_values_succeeds:
  assumes "''Rank'' \<in> set (columns df)"
    and "\<And>r v. r \<in> set (rows df) \<Longrightarrow> v \<in> set (del_row ''Rank'' (columns df) r) \<Longrightarrow>
           \<exists>w. flatten (replace_cell (Str [newline]) (Str '' '')
             (replace_cell (Str [tab]) (Str '' '') (replace_cell NaN (Str '''') v))) = Inr w"
  shows "\<exists>d. clean_values df = Inr d"
proof -
  let ?pre = "\<lambda>v. replace_cell (Str [newline]) (Str '' '')
             (replace_cell (Str [tab]) (Str '' '') (replace_cell NaN (Str '''') v))"
  let ?d1 = "\<lparr>columns = filter (\<lambda>k. k \<noteq> ''Rank'') (columns df),
                rows = map (del_row ''Rank'' (columns df)) (rows df)\<rparr>"
  let ?d4 = "replace (Str [newline]) (Str '' '') (replace (Str [tab]) (Str '' '')
                      (replace NaN (Str '''') ?d1))"
  have d1: "del_column ''Rank'' df = Inr ?d1"
    using assms(1) by (simp add: del_column_def)
  have rows4: "rows ?d4 = map (\<lambda>r. map ?pre (del_row ''Rank'' (columns df) r)) (rows df)"
    by (simp add: replace_def comp_def)
  have inner: "\<exists>r'. collect (map (\<lambda>v. flatten (?pre v)) (del_row ''Rank'' (columns df) r)) = Inr r'"
    if "r \<in> set (rows df)" for r
    by (rule collect_all_Inr) (rule assms(2) [OF that])
  have "\<exists>rs. collect (map (\<lambda>r. collect (map (\<lambda>v. flatten (?pre v))
                                          (del_row ''Rank'' (columns df) r)))
                      (rows df)) = Inr rs"
    by (rule collect_all_Inr) (rule inner)
  moreover have "map (\<lambda>r. collect (map flatten r)) (rows ?d4)
                   = map (\<lambda>r. collect (map (\<lambda>v. flatten (?pre v))
                                          (del_row ''Rank'' (columns df) r))) (rows df)"
    unfolding rows4 by (simp add: comp_def)
  ultimately obtain rs where "collect (map (\<lambda>r. collect (map flatten r)) (rows ?d4)) = Inr rs"
    by metis
  then have "applymap flatten ?d4 = Inr (?d4\<lparr>rows := rs\<rparr>)"
    by (simp add: applymap_def)
  then show ?thesis using d1 by (simp add: clean_values_def)
qed

lemma flatten_pre_flattenable:
  "(\<exists>w. flatten (replace_cell (Str [newline]) (Str '' '')
             (replace_cell (Str [tab]) (Str '' '') (replace_cell NaN (Str '''') v))) = Inr w)
   \<longleftrightarrow> flattenable v"
  by (cases v) (auto simp: replace_cell_def tab_def newline_def split: if_splits)

lemma flatten_Inl: "flatten v = Inl e \<Longrightarrow> e = TypeError"
  by (cases v) (auto split: if_splits)

lemma clean_values_Inl:
  assumes "clean_values df = Inl e" and "''Rank'' \<in> set (columns df)"
  shows "e = TypeError"
proof -
  let ?d1 = "\<lparr>columns = filter (\<lambda>k. k \<noteq> ''Rank'') (columns df),
                rows = map (del_row ''Rank'' (columns df)) (rows df)\<rparr>"
  let ?d4 = "replace (Str [newline]) (Str '' '') (replace (Str [tab]) (Str '' '')
                      (replace NaN (Str '''') ?d1))"
  have d1: "del_column ''Rank'' df = Inr ?d1"
    using assms(2) by (simp add: del_column_def)
  from assms(1) d1 have "applymap flatten ?d4 = Inl e"
    by (auto simp: clean_values_def split: sum.splits)
  then have "collect (map (\<lambda>r. collect (map flatten r)) (rows ?d4)) = Inl e"
    by (auto simp: applymap_def split: sum.splits)
  from collect_Inl [OF this] obtain r where "collect (map flatten r) = Inl e"
    by auto
  from collect_Inl [OF this] obtain v where "flatten v = Inl e"
    by auto
  then show ?thesis by (rule flatten_Inl)
qed

lemma del_row_map: "del_row k cols (map f cols) = map f (filter (\<lambda>c. c \<noteq> k) cols)"
  by (induction cols) (simp_all add: del_row_def)

lemma clean_values_DataFrame:
  assumes "cols = keep_first (concat (map (map fst) studies))"
    and "cols' = filter (\<lambda>c. c \<noteq> ''Rank'') cols"
  shows "clean_values (DataFrame studies) =
           (if ''Rank'' \<notin> set cols then Inl KeyError
            else if \<exists>s\<in>set studies. \<exists>c\<in>set cols'. \<not> flattenable (get_cell s c) then Inl TypeError
            else Inr \<lparr>columns = cols',
                      rows = map (\<lambda>s. map (\<lambda>c. cleaned_cell (get_cell s c)) cols') studies\<rparr>)"
proof -
  let ?df = "DataFrame studies"
  have c: "columns ?df = cols" and r: "rows ?df = map (\<lambda>s. map (get_cell s) cols) studies"
    using assms(1) by (simp_all add: DataFrame_def Let_def)
  have cells: "(\<forall>r\<in>set (rows ?df). \<forall>v\<in>set (del_row ''Rank'' (columns ?df) r). flattenable v)
                 \<longleftrightarrow> (\<forall>s\<in>set studies. \<forall>c\<in>set cols'. flattenable (get_cell s c))"
    unfolding c r by (auto simp: del_row_map assms(2))
  show ?thesis
  proof (cases "''Rank'' \<in> set cols")
    case False
    then show ?thesis by (simp add: clean_values_def del_column_def c)
  next
    case rank: True
    show ?thesis
    proof (cases "\<forall>s\<in>set studies. \<forall>c\<in>set cols'. flattenable (get_cell s c)")
      case True
      have "\<exists>d. clean_values ?df = Inr d"
      proof (rule clean_values_succeeds)
        show "''Rank'' \<in> set (columns ?df)" using rank c by simp
      next
        fix r v assume "r \<in> set (rows ?df)" "v \<in> set (del_row ''Rank'' (columns ?df) r)"
        then have "flattenable v" using True cells by blast
        then show "\<exists>w. flatten (replace_cell (Str [newline]) (Str '' '')
             (replace_cell (Str [tab]) (Str '' '') (replace_cell NaN (Str '''') v))) = Inr w"
          by (simp add: flatten_pre_flattenable)
      qed
      then obtain d where d: "clean_values ?df = Inr d" by blast
      have "columns d = cols'"
        using clean_values_rows(2) [OF d] by (simp add: c assms(2))
      moreover have "rows d = map (\<lambda>s. map (\<lambda>c. cleaned_cell (get_cell s c)) cols') studies"
        using clean_values_rows(3) [OF d] by (simp add: c r del_row_map assms(2) comp_def)
      ultimately have "d = \<lparr>columns = cols',
                      rows = map (\<lambda>s. map (\<lambda>c. cleaned_cell (get_cell s c)) cols') studies\<rparr>"
        by simp
      then show ?thesis using d rank True by simp
    next
      case False
      have "\<exists>e. clean_values ?df = Inl e"
      proof (rule ccontr)
        assume "\<nexists>e. clean_values ?df = Inl e"
        then obtain d where d: "clean_values ?df = Inr d" by (cases "clean_values ?df") auto
        have "\<forall>r\<in>set (rows ?df). \<forall>v\<in>set (del_row ''Rank'' (columns ?df) r). flattenable v"
          using clean_values_flatten [OF d] by (simp add: flatten_pre_flattenable)
        then show False using False cells by blast
      qed
      then obtain e where e: "clean_values ?df = Inl e" by blast
      then have "e = TypeError" using rank c by (intro clean_values_Inl [of ?df]) simp_all
      then show ?thesis using e rank False by simp
    qed
  qed
qed

lemma foldl_append_page_studies:
  "foldl append_page (DataFrame acc) infos
     = DataFrame (acc @ concat (map StudyFields (filter (\<lambda>i. NStudiesReturned i > 0) infos)))"
  by (induction infos arbitrary: acc) (simp_all add: append_page_def concat_df_DataFrame)

text \<open>
  C10. When no request raises, the requests issued are the window 1 to 1000 and
  the windows of the loop, whatever the pages hold. Let \<open>studies\<close> be the studies
  of the first page followed by those of every later page that reports returned
  studies, in the order of the requests: a later page that reports none adds
  nothing and raises nothing. The function returns the table of exactly these
  studies: its columns are their keys in the order of first appearance, without
  \<open>Rank\<close>; each study gives the row of its cleaned cells (a null marker where it
  lacks the key); of equal rows the first is kept. So the rows of the table are
  the rows of all these studies and, when there is a column, no two are equal.
  The only exceptions left are those of the clean-up of these studies: no
  \<open>Rank\<close> key at all, or a list with an element that is not a string.
\<close>

theorem empty_later_page_skipped:
  assumes "query \<noteq> []" and "length return_fields \<le> 20"
    and "get study_url (make_params query return_fields search_field 1 1000) = Inr info"
    and "NStudiesReturned info > 0"
    and "n_total = limit_total n_lim (NStudiesFound info)"
    and "\<And>w. w \<in> set (windows n_total 1 1000) \<Longrightarrow>
           get study_url (make_params query return_fields search_field (fst w) (snd w)) = Inr (resp w)"
    and "studies = StudyFields info @
           concat (map StudyFields
                    (filter (\<lambda>i. NStudiesReturned i > 0) (map resp (windows n_total 1 1000))))"
    and "cols = filter (\<lambda>c. c \<noteq> ''Rank'') (keep_first (concat (map (map fst) studies)))"
  shows "query_ctgov_api get query return_fields verbose n_lim study_url search_field
         = (make_params query return_fields search_field 1 1000 #
              map (\<lambda>w. make_params query return_fields search_field (fst w) (snd w))
                (windows n_total 1 1000),
            if \<forall>s\<in>set studies. ''Rank'' \<notin> fst ` set s then Raise KeyError
            else if \<exists>s\<in>set studies. \<exists>c\<in>set cols. \<not> flattenable (get_cell s c)
            then Raise TypeError
            else ReturnFrame
                   \<lparr>columns = cols,
                    rows = (if cols = []
                            then map (\<lambda>s. map (\<lambda>c. cleaned_cell (get_cell s c)) cols) studies
                            else keep_first
                                   (map (\<lambda>s. map (\<lambda>c. cleaned_cell (get_cell s c)) cols) studies))\<rparr>)
         \<and> (\<forall>t. snd (query_ctgov_api get query return_fields verbose n_lim study_url search_field)
                  = ReturnFrame t \<longrightarrow>
                set (rows t) = (\<lambda>s. map (\<lambda>c. cleaned_cell (get_cell s c)) cols) ` set studies
                \<and> (cols \<noteq> [] \<longrightarrow> distinct (rows t)))"
proof -
  let ?log = "make_params query return_fields search_field 1 1000 #
              map (\<lambda>w. make_params query return_fields search_field (fst w) (snd w))
                (windows n_total 1 1000)"
  let ?row = "\<lambda>s. map (\<lambda>c. cleaned_cell (get_cell s c)) cols"
  let ?out = "if \<forall>s\<in>set studies. ''Rank'' \<notin> fst ` set s then Raise KeyError
            else if \<exists>s\<in>set studies. \<exists>c\<in>set cols. \<not> flattenable (get_cell s c)
            then Raise TypeError
            else ReturnFrame
                   \<lparr>columns = cols,
                    rows = (if cols = [] then map ?row studies else keep_first (map ?row studies))\<rparr>"
  have "fetch_pages get study_url query return_fields search_field n_total 1 1000
          (DataFrame (StudyFields info)) [make_params query return_fields search_field 1 1000]
        = ([make_params query return_fields search_field 1 1000] @
             map (\<lambda>w. make_params query return_fields search_field (fst w) (snd w))
               (windows n_total 1 1000),
           Inr (foldl append_page (DataFrame (StudyFields info)) (map resp (windows n_total 1 1000))))"
    using assms(6) by (rule fetch_pages_ok)
  then have run: "query_ctgov_api get query return_fields verbose n_lim study_url search_field
                    = (?log, case clean_up (DataFrame studies) of
                               Inl e \<Rightarrow> Raise e | Inr df \<Rightarrow> ReturnFrame df)"
    using assms(1-5,7) by (simp add: query_first_page foldl_append_page_studies)
  have rank: "''Rank'' \<notin> set (keep_first (concat (map (map fst) studies)))
                \<longleftrightarrow> (\<forall>s\<in>set studies. ''Rank'' \<notin> fst ` set s)"
    by auto
  have "(case clean_up (DataFrame studies) of Inl e \<Rightarrow> Raise e | Inr df \<Rightarrow> ReturnFrame df) = ?out"
    unfolding clean_up_def clean_values_DataFrame [OF refl assms(8)] rank
    by (simp add: drop_duplicates_def)
  with run have eq: "query_ctgov_api get query return_fields verbose n_lim study_url search_field
                       = (?log, ?out)"
    by simp
  moreover have "set (rows t) = ?row ` set studies \<and> (cols \<noteq> [] \<longrightarrow> distinct (rows t))"
    if "snd (query_ctgov_api get query return_fields verbose n_lim study_url search_field)
          = ReturnFrame t" for t
    using that unfolding eq by (auto split: if_splits)
  ultimately show ?thesis by blast
qed

section \<open>One row per study\<close>

text \<open>
  The windows of the loop start at the last rank of the window before, so the
  pages of the registry, one after the other, hold every study once and the study
  at each window boundary twice; keeping first occurrences, they give what the
  studies in the order of their rank give.
\<close>

lemma windows_bounds:
  assumes "n_total > curr_max \<longrightarrow> curr_min + 999 = curr_max" and "1 \<le> curr_max"
    and "w \<in> set (windows n_total curr_min curr_max)"
  shows "1 \<le> fst w \<and> fst w < n_total \<and> fst w < snd w"
  using assms
proof (induction n_total curr_min curr_max rule: windows.induct)
  case (1 n_total curr_min curr_max)
  show ?case
  proof (cases "n_total > curr_max")
    case False
    then show ?thesis using 1(4) by (simp add: windows_none)
  next
    case True
    let ?w = "(curr_min + 999, min n_total (curr_max + 999))"
    let ?ws = "windows n_total (curr_min + 999) (min n_total (curr_max + 999))"
    have ws: "windows n_total curr_min curr_max = ?w # ?ws"
      using True by (subst windows.simps) simp
    from 1(4) ws consider "w = ?w" | "w \<in> set ?ws" by auto
    then show ?thesis
    proof cases
      case 1
      then show ?thesis using True \<open>n_total > curr_max \<longrightarrow> curr_min + 999 = curr_max\<close>
          \<open>1 \<le> curr_max\<close> by auto
    next
      case 2
      show ?thesis
      proof (rule 1(1) [OF True _ _ 2])
        show "min n_total (curr_max + 999) < n_total \<longrightarrow>
                curr_min + 999 + 999 = min n_total (curr_max + 999)"
          using True 1(2) by auto
        show "1 \<le> min n_total (curr_max + 999)"
          using True 1(3) by auto
      qed
    qed
  qed
qed

lemma page_split:
  assumes "1 \<le> c" and "c \<le> m" and "c \<le> length S"
  shows "take c S = take (c - 1) S @ [S ! (c - 1)]"
    and "drop (c - 1) (take m S) = S ! (c - 1) # drop c (take m S)"
    and "take m S = take (c - 1) S @ [S ! (c - 1)] @ drop c (take m S)"
proof -
  have c: "Suc (c - 1) = c" and lt: "c - 1 < length S" "c - 1 < length (take m S)"
    using assms by auto
  show 1: "take c S = take (c - 1) S @ [S ! (c - 1)]"
    using take_Suc_conv_app_nth [OF lt(1)] c by simp
  show 2: "drop (c - 1) (take m S) = S ! (c - 1) # drop c (take m S)"
    using Cons_nth_drop_Suc [OF lt(2)] c assms by simp
  have "take m S = take (c - 1) (take m S) @ drop (c - 1) (take m S)"
    by (rule append_take_drop_id [symmetric])
  also have "take (c - 1) (take m S) = take (c - 1) S"
  proof -
    have "min (c - 1) m = c - 1" using assms by auto
    then show ?thesis by simp
  qed
  finally show "take m S = take (c - 1) S @ [S ! (c - 1)] @ drop c (take m S)"
    using 2 by simp
qed

lemma pages_cover:
  assumes "n_total = int (length S)"
    and "n_total > curr_max \<longrightarrow> curr_min + 999 = curr_max"
    and "1 \<le> curr_max" and "curr_max \<le> n_total"
    and "keep_first (concat (map g acc)) = keep_first (concat (map g (take (nat curr_max) S)))"
  shows "keep_first (concat (map g (acc @ concat (map (\<lambda>w. drop (nat (fst w - 1)) (take (nat (snd w)) S))
                                                 (windows n_total curr_min curr_max)))))
         = keep_first (concat (map g S))"
  using assms
proof (induction n_total curr_min curr_max arbitrary: acc rule: windows.induct)
  case (1 n_total curr_min curr_max)
  show ?case
  proof (cases "n_total > curr_max")
    case False
    then have "nat curr_max = length S" using 1(2,5) by simp
    then show ?thesis using False 1(6) by (simp add: windows_none)
  next
    case True
    let ?m' = "min n_total (curr_max + 999)"
    let ?w = "(curr_min + 999, ?m')"
    let ?ws = "windows n_total (curr_min + 999) ?m'"
    let ?page = "drop (nat (fst ?w - 1)) (take (nat (snd ?w)) S)"
    define c where "c = nat curr_max"
    define m where "m = nat ?m'"
    have ws: "windows n_total curr_min curr_max = ?w # ?ws"
      using True by (subst windows.simps) simp
    have lo: "curr_min + 999 = curr_max" using True 1(3) by simp
    have c: "1 \<le> c" "c \<le> m" "c \<le> length S"
      using True 1(2,4) by (simp_all add: c_def m_def)
    have page: "?page = drop (c - 1) (take m S)"
      using lo 1(4) by (simp add: c_def m_def nat_diff_distrib)
    note split = page_split [OF c]
    have "keep_first (concat (map g (acc @ ?page)))
            = keep_first (concat (map g acc) @ concat (map g ?page))"
      by simp
    also have "\<dots> = keep_first (concat (map g (take c S)) @ concat (map g ?page))"
      using 1(6) unfolding c_def by (rule keep_first_same_prefix)
    also have "\<dots> = keep_first (concat (map g (take (c - 1) S)) @ g (S ! (c - 1)) @ g (S ! (c - 1))
                                  @ concat (map g (drop c (take m S))))"
      unfolding page split(2) by (subst split(1)) simp
    also have "\<dots> = keep_first (concat (map g (take (c - 1) S)) @ g (S ! (c - 1))
                                  @ concat (map g (drop c (take m S))))"
      by (rule keep_first_repeat)
    also have "\<dots> = keep_first (concat (map g (take m S)))"
      by (subst (2) split(3)) simp
    finally have inv: "keep_first (concat (map g (acc @ ?page)))
                         = keep_first (concat (map g (take (nat ?m') S)))"
      unfolding m_def .
    have "keep_first (concat (map g ((acc @ ?page) @
              concat (map (\<lambda>w. drop (nat (fst w - 1)) (take (nat (snd w)) S)) ?ws))))
          = keep_first (concat (map g S))"
    proof (rule 1(1) [OF True 1(2) _ _ _ inv])
      show "?m' < n_total \<longrightarrow> curr_min + 999 + 999 = ?m'" using lo by auto
      show "1 \<le> ?m'" using True 1(4) by auto
      show "?m' \<le> n_total" by simp
    qed
    then show ?thesis unfolding ws by simp
  qed
qed

lemma fetched_same:
  assumes "S \<noteq> []"
  shows "keep_first (concat (map g (take 1000 S @
            concat (map (\<lambda>w. drop (nat (fst w - 1)) (take (nat (snd w)) S))
                     (windows (int (length S)) 1 1000)))))
         = keep_first (concat (map g S))"
proof (cases "int (length S) > 1000")
  case False
  then show ?thesis by (simp add: windows_none)
next
  case True
  show ?thesis
  proof (rule pages_cover [OF refl])
    show "1000 < int (length S) \<longrightarrow> (1::int) + 999 = 1000" by simp
    show "(1::int) \<le> 1000" by simp
    show "1000 \<le> int (length S)" using True by simp
    show "keep_first (concat (map g (take 1000 S)))
            = keep_first (concat (map g (take (nat 1000) S)))" by simp
  qed
qed

lemma registry_pages_returned:
  assumes "w \<in> set (windows (int (length db)) 1 1000)"
  shows "NStudiesReturned (registry_page db (fst w) (snd w)) > 0"
proof -
  have "1 \<le> fst w \<and> fst w < int (length db) \<and> fst w < snd w"
    using _ _ assms by (rule windows_bounds) simp_all
  then show ?thesis by (simp add: registry_page_returned) linarith
qed

lemma ranked_has_Rank: "s \<in> set (ranked db) \<Longrightarrow> ''Rank'' \<in> fst ` set s"
  by (auto simp: ranked_def)

lemma ranked_Nil_iff: "ranked db = [] \<longleftrightarrow> db = []"
  by (cases db) (simp_all add: ranked_def)

lemma key_in_columns:
  "s \<in> set xs \<Longrightarrow> k \<in> fst ` set s \<Longrightarrow> k \<in> set (keep_first (concat (map (map fst) xs)))"
  by auto

lemma query_registry_table:
  assumes "query \<noteq> []" and "length return_fields \<le> 20" and "db \<noteq> []"
    and "limit_total n_lim (int (length db)) = int (length db)"
    and "cols = filter (\<lambda>c. c \<noteq> ''Rank'') (keep_first (concat (map (map fst) (ranked db))))"
    and "cols \<noteq> []"
    and "\<forall>s\<in>set (ranked db). \<forall>c\<in>set cols. flattenable (get_cell s c)"
  shows "snd (query_ctgov_api (registry db) query return_fields verbose n_lim study_url search_field)
         = ReturnFrame \<lparr>columns = cols,
                        rows = keep_first (map (\<lambda>s. map (\<lambda>c. cleaned_cell (get_cell s c)) cols)
                                             (ranked db))\<rparr>"
proof -
  define S where "S = ranked db"
  define ws where "ws = windows (int (length db)) 1 1000"
  define pages where "pages = map (\<lambda>w. registry_page db (fst w) (snd w)) ws"
  define F where "F = take 1000 S @ concat (map (\<lambda>w. drop (nat (fst w - 1)) (take (nat (snd w)) S)) ws)"
  define row where "row = (\<lambda>s. map (\<lambda>c. cleaned_cell (get_cell s c)) cols)"
  have S: "S \<noteq> []" using assms(3) by (simp add: S_def ranked_Nil_iff)
  have len: "length S = length db" by (simp add: S_def)
  have same: "keep_first (concat (map g F)) = keep_first (concat (map g S))" for g :: "study \<Rightarrow> 'b list"
    using fetched_same [OF S, of g] unfolding len F_def ws_def .
  have pos: "filter (\<lambda>i. NStudiesReturned i > 0) pages = pages"
    unfolding pages_def ws_def by (rule filter_True) (auto simp: registry_pages_returned)
  have first: "StudyFields (registry_page db 1 1000) = take 1000 S"
    by (simp add: registry_page_studies S_def)
  have later: "concat (map StudyFields pages)
                 = concat (map (\<lambda>w. drop (nat (fst w - 1)) (take (nat (snd w)) S)) ws)"
    by (simp add: pages_def comp_def registry_page_studies S_def)
  have acc: "foldl append_page (DataFrame (StudyFields (registry_page db 1 1000))) pages
               = DataFrame F"
    unfolding foldl_append_page_studies pos first later F_def ..
  have colsF: "cols = filter (\<lambda>c. c \<noteq> ''Rank'') (keep_first (concat (map (map fst) F)))"
    unfolding same [of "map fst"] assms(5) S_def ..
  have "set (keep_first (concat (map (\<lambda>d. [d]) F))) = set (keep_first (concat (map (\<lambda>d. [d]) S)))"
    unfolding same [of "\<lambda>d. [d]"] ..
  then have setF: "set F = set S"
    unfolding set_keep_first concat_map_singleton list.map_ident .
  obtain s where s: "s \<in> set S" using S by (cases S) auto
  then have "s \<in> set F" unfolding setF .
  moreover have "''Rank'' \<in> fst ` set s" using s unfolding S_def by (rule ranked_has_Rank)
  ultimately have rank: "''Rank'' \<in> set (keep_first (concat (map (map fst) F)))"
    by (rule key_in_columns)
  have flat: "\<not> (\<exists>s\<in>set F. \<exists>c\<in>set cols. \<not> flattenable (get_cell s c))"
    unfolding setF S_def using assms(7) by blast
  have "clean_values (DataFrame F)
          = (if ''Rank'' \<notin> set (keep_first (concat (map (map fst) F))) then Inl KeyError
             else if \<exists>s\<in>set F. \<exists>c\<in>set cols. \<not> flattenable (get_cell s c) then Inl TypeError
             else Inr \<lparr>columns = cols, rows = map row F\<rparr>)"
    unfolding row_def by (rule clean_values_DataFrame [OF refl colsF])
  then have "clean_values (DataFrame F) = Inr \<lparr>columns = cols, rows = map row F\<rparr>"
    using rank flat by (simp only: if_False not_not if_True simp_thms)
  then have "clean_up (DataFrame F) = Inr \<lparr>columns = cols, rows = keep_first (map row F)\<rparr>"
    using assms(6) by (simp add: clean_up_def drop_duplicates_def)
  moreover have "keep_first (map row F) = keep_first (map row S)"
    using same [of "\<lambda>s. [row s]"] unfolding concat_map_singleton .
  ultimately have clean: "clean_up (DataFrame F)
               = Inr \<lparr>columns = cols, rows = keep_first (map row S)\<rparr>"
    by (simp only:)
  have "query_ctgov_api (registry db) query return_fields verbose n_lim study_url search_field
         = (make_params query return_fields search_field 1 1000 #
              map (\<lambda>w. make_params query return_fields search_field (fst w) (snd w))
                (windows (int (length db)) 1 1000),
            case clean_up (foldl append_page (DataFrame (StudyFields (registry_page db 1 1000)))
                             (map (\<lambda>w. registry_page db (fst w) (snd w))
                                (windows (int (length db)) 1 1000))) of
              Inl e \<Rightarrow> Raise e
            | Inr df \<Rightarrow> ReturnFrame df)"
    using assms(1-3) assms(4) [symmetric] by (rule query_registry)
  then have "snd (query_ctgov_api (registry db) query return_fields verbose n_lim study_url search_field)
               = ReturnFrame \<lparr>columns = cols, rows = keep_first (map row S)\<rparr>"
    unfolding pages_def [symmetric] ws_def [symmetric] acc clean by (simp only: snd_conv sum.case)
  then show ?thesis unfolding row_def S_def .
qed

lemma ranked_one_field:
  "ranked (map (\<lambda>v. [(k, v)]) vs)
     = map (\<lambda>(i, v). [(''Rank'', Num (int (Suc i))), (k, v)]) (enumerate 0 vs)"
  by (simp add: ranked_def enumerate_map_upt comp_def case_prod_unfold
        enumerate_eq_zip zip_map2)

lemma keep_first_prefix_covers:
  assumes "distinct ks" and "set rest \<subseteq> set ks"
  shows "keep_first (ks @ rest) = ks"
proof -
  have "filter (\<lambda>y. y \<notin> set ks) (keep_first rest) = []"
    using assms(2) by (simp add: filter_empty_conv subset_iff)
  then show ?thesis
    using assms(1) by (simp add: keep_first_append keep_first_distinct)
qed

lemma keys_one_field:
  assumes "vs \<noteq> []" and "k \<noteq> ''Rank''"
  shows "filter (\<lambda>c. c \<noteq> ''Rank'')
           (keep_first (concat (map (map fst) (ranked (map (\<lambda>v. [(k, v)]) vs))))) = [k]"
proof -
  obtain p ps where ps: "enumerate 0 vs = p # ps"
    using assms(1) by (cases vs) auto
  have "concat (map (map fst) (ranked (map (\<lambda>v. [(k, v)]) vs)))
          = concat (map (\<lambda>p. [''Rank'', k]) (enumerate 0 vs))"
    by (simp add: ranked_one_field comp_def case_prod_unfold)
  also have "\<dots> = [''Rank'', k] @ concat (map (\<lambda>p. [''Rank'', k]) ps)"
    unfolding ps by simp
  finally have "keep_first (concat (map (map fst) (ranked (map (\<lambda>v. [(k, v)]) vs))))
                  = keep_first ([''Rank'', k] @ concat (map (\<lambda>p. [''Rank'', k]) ps))"
    by (rule arg_cong)
  also have "\<dots> = [''Rank'', k]"
    using assms(2) by (intro keep_first_prefix_covers) auto
  finally show ?thesis using assms(2) by simp
qed

lemma rows_one_field:
  assumes "k \<noteq> ''Rank''"
  shows "map (\<lambda>s. map (\<lambda>c. f (get_cell s c)) [k]) (ranked (map (\<lambda>v. [(k, v)]) vs))
           = map (\<lambda>v. [f v]) vs"
proof -
  have "map (\<lambda>s. map (\<lambda>c. f (get_cell s c)) [k]) (ranked (map (\<lambda>v. [(k, v)]) vs))
          = map (\<lambda>p. [f (snd p)]) (enumerate 0 vs)"
    using assms by (simp add: ranked_one_field comp_def case_prod_unfold get_cell_def)
  also have "\<dots> = map (\<lambda>v. [f v]) (map snd (enumerate 0 vs))"
    by (simp only: map_map comp_def)
  also have "map snd (enumerate 0 vs) = vs"
    by (rule map_snd_enumerate)
  finally show ?thesis .
qed

lemma all_rows_empty_not_distinct:
  assumes "length xs > 1"
  shows "\<not> distinct (map (\<lambda>s. []) xs)"
proof -
  obtain a b ys where "xs = a # b # ys"
    using assms by (cases xs; cases "tl xs") auto
  then show ?thesis by simp
qed



section \<open>Concrete runs\<close>

text \<open>
  C1, as stated, fails. For a registry of 1500 studies the function requests the
  windows 1 to 1000 and 1000 to 1500: the second lower bound is the first upper
  bound, not one past it, and rank 1000 is requested twice.
\<close>

theorem windows_share_rank_1000_counterexample:
  "fst (query_ctgov_api (registry (synthetic_db 1500)) ''heart'' [''NCTId''] False None
          default_study_url None)
     = [make_params ''heart'' [''NCTId''] None 1 1000,
        make_params ''heart'' [''NCTId''] None 1000 1500]
   \<and> min_rnk (make_params ''heart'' [''NCTId''] None 1000 1500)
       \<noteq> max_rnk (make_params ''heart'' [''NCTId''] None 1 1000) + 1"
  using log_1500 by (simp add: make_params_def)

text \<open>The amended C1 on the same run.\<close>

theorem page_windows_overlap_by_one_witness:
  "min_rnk (make_params ''heart'' [''NCTId''] None 1000 1500)
     = max_rnk (make_params ''heart'' [''NCTId''] None 1 1000)
   \<and> max_rnk (make_params ''heart'' [''NCTId''] None 1000 1500)
     = min 1500 (max_rnk (make_params ''heart'' [''NCTId''] None 1 1000) + 999)"
proof -
  let ?Q = "query_ctgov_api (registry (synthetic_db 1500)) ''heart'' [''NCTId'']
              False None default_study_url None"
  let ?log = "[make_params ''heart'' [''NCTId''] None 1 1000,
               make_params ''heart'' [''NCTId''] None 1000 1500]"
  have 1: "''heart'' \<noteq> []" and 2: "length [''NCTId''] \<le> 20" by simp_all
  have 3: "registry (synthetic_db 1500) default_study_url (make_params ''heart'' [''NCTId''] None 1 1000)
             = Inr (registry_page (synthetic_db 1500) 1 1000)"
    by (rule registry_first_page)
  have 4: "NStudiesReturned (registry_page (synthetic_db 1500) 1 1000) > 0"
    by (simp add: registry_page_returned)
  have 5: "(1500::int) = limit_total None (NStudiesFound (registry_page (synthetic_db 1500) 1 1000))"
    by (simp add: limit_total_def)
  have 6: "(1500::int) > 1000" by simp
  have 7: "?Q = (?log, snd ?Q)" using log_1500 by (simp add: prod_eq_iff)
  from page_windows_overlap_by_one [OF 1 2 3 4 5 6 7]
  have "\<forall>i. Suc i < length ?log \<longrightarrow>
            min_rnk (?log ! Suc i) = max_rnk (?log ! i) \<and>
            max_rnk (?log ! Suc i) = min 1500 (max_rnk (?log ! i) + 999)"
    by blast
  from this [rule_format, of 0] show ?thesis by simp
qed

lemma query_synthetic_3_limit_1:
  "query_ctgov_api (registry (synthetic_db 3)) ''heart'' [''NCTId''] False (Some 1)
            default_study_url None
          = ([make_params ''heart'' [''NCTId''] None 1 1000],
             ReturnFrame \<lparr>columns = [''NCTId''],
                          rows = [[Str ''NCT''], [Str ''NCT0''], [Str ''NCT00'']]\<rparr>)"
  by code_simp

lemma query_synthetic_3_limit_2000:
  "query_ctgov_api (registry (synthetic_db 3)) ''heart'' [''NCTId''] False (Some 2000)
            default_study_url None
          = ([make_params ''heart'' [''NCTId''] None 1 1000],
             ReturnFrame \<lparr>columns = [''NCTId''],
                          rows = [[Str ''NCT''], [Str ''NCT0''], [Str ''NCT00'']]\<rparr>)"
  by code_simp



lemma query_two_conditions:
  "query_ctgov_api (registry two_conditions) ''asthma'' [''Condition'', ''BriefSummary''] False None
      default_study_url None
   = ([make_params ''asthma'' [''Condition'', ''BriefSummary''] None 1 1000],
      ReturnFrame \<lparr>columns = [''Condition'', ''BriefSummary''],
                   rows = [[Str (''Asthma'' @ [tab] @ ''COPD''),
                            Str (''Line one'' @ [newline] @ ''line two'')]]\<rparr>)"
  by code_simp

text \<open>
  C7 does not hold of the code. Lines 93 and 94 are there to turn tabs and
  newlines into spaces, but \<open>replace\<close> without \<open>regex=True\<close> only matches a cell
  whose whole value is the character, and it runs before the lists are joined, so
  it never reaches the text of a field of the registry. A summary of two lines
  and a title with a tab in it come back with the newline and the tab in the
  cells of the returned table. (The tabs that the join of line 95 puts between
  the elements of a list are another matter: here every list has one element.)
\<close>

theorem text_newline_and_tab_survive:
  "query_ctgov_api (registry free_text_study) ''asthma'' [''BriefSummary'', ''OfficialTitle'']
      False None default_study_url None
   = ([make_params ''asthma'' [''BriefSummary'', ''OfficialTitle''] None 1 1000],
      ReturnFrame \<lparr>columns = [''BriefSummary'', ''OfficialTitle''],
                   rows = [[Str (''Line one'' @ [newline] @ ''line two''),
                            Str (''Phase'' @ [tab] @ ''II'')]]\<rparr>)
   \<and> newline \<in> set (''Line one'' @ [newline] @ ''line two'')
   \<and> tab \<in> set (''Phase'' @ [tab] @ ''II'')"
proof -
  have "query_ctgov_api (registry free_text_study) ''asthma'' [''BriefSummary'', ''OfficialTitle'']
          False None default_study_url None
        = ([make_params ''asthma'' [''BriefSummary'', ''OfficialTitle''] None 1 1000],
           ReturnFrame \<lparr>columns = [''BriefSummary'', ''OfficialTitle''],
                        rows = [[Str (''Line one'' @ [newline] @ ''line two''),
                                 Str (''Phase'' @ [tab] @ ''II'')]]\<rparr>)"
    by code_simp
  then show ?thesis by simp
qed

lemma clean_up_no_condition:
  "clean_up (DataFrame (ranked no_condition))
     = Inr \<lparr>columns = [''NCTId'', ''Condition''], rows = [[Str ''NCT01'', Str '''']]\<rparr>"
  by code_simp

lemma cell_at_no_condition:
  "cell_at (DataFrame (ranked no_condition)) 0 ''Condition'' = Some (Lst [])"
  by code_simp

text \<open>
  C5, as stated, fails. A study without conditions has the empty list in that
  cell; joined it is the empty string, and splitting the empty string gives one
  piece, not none.
\<close>

theorem empty_list_cell_counterexample:
  "cell_at (DataFrame (ranked no_condition)) 0 ''Condition'' = Some (Lst [])
   \<and> clean_up (DataFrame (ranked no_condition))
       = Inr \<lparr>columns = [''NCTId'', ''Condition''], rows = [[Str ''NCT01'', Str '''']]\<rparr>
   \<and> length (split tab '''') \<noteq> length ([] :: cell list)"
  using clean_up_no_condition cell_at_no_condition by simp

lemma clean_up_two_conditions:
  "clean_up (DataFrame (ranked two_conditions))
     = Inr \<lparr>columns = [''Condition'', ''BriefSummary''],
                   rows = [[Str (''Asthma'' @ [tab] @ ''COPD''),
                            Str (''Line one'' @ [newline] @ ''line two'')]]\<rparr>"
  by code_simp

lemma cell_at_two_conditions:
  "cell_at (DataFrame (ranked two_conditions)) 0 ''Condition''
     = Some (Lst [Str ''Asthma'', Str ''COPD''])"
  by code_simp

text \<open>The amended C5 on the study with two conditions.\<close>

theorem list_cell_tab_joined_witness:
  "\<exists>d. clean_values (DataFrame (ranked two_conditions)) = Inr d
      \<and> cell_at d 0 ''Condition'' = Some (Str (join [tab] [''Asthma'', ''COPD'']))
      \<and> split tab (join [tab] [''Asthma'', ''COPD'']) = [''Asthma'', ''COPD'']
      \<and> length (split tab (join [tab] [''Asthma'', ''COPD'']))
          = length [Str ''Asthma'', Str ''COPD'']"
proof -
  have "''Condition'' \<noteq> ''Rank''" by simp
  from list_cell_tab_joined [OF clean_up_two_conditions cell_at_two_conditions this]
  obtain d ss where d: "clean_values (DataFrame (ranked two_conditions)) = Inr d"
    and ss: "[Str ''Asthma'', Str ''COPD''] = map Str ss"
    and cell: "cell_at d 0 ''Condition'' = Some (Str (join [tab] ss))"
    and rt: "ss \<noteq> [] \<and> (\<forall>s\<in>set ss. tab \<notin> set s) \<longrightarrow>
            split tab (join [tab] ss) = ss
            \<and> length (split tab (join [tab] ss)) = length [Str ''Asthma'', Str ''COPD'']"
    by (elim exE conjE) (rule that)
  have "ss = map the_Str (map Str ss)" by (induction ss) simp_all
  then have ss': "ss = [''Asthma'', ''COPD'']"
    unfolding ss [symmetric] by simp
  have "ss \<noteq> [] \<and> (\<forall>s\<in>set ss. tab \<notin> set s)"
    unfolding ss' by (simp add: tab_def)
  with rt d cell show ?thesis unfolding ss' by blast
qed


lemma windows_2500: "windows 2500 1 1000 = [(1000, 1999), (1999, 2500)]"
  by (simp add: windows.simps)

text \<open>
  C10 on a registry whose second page reports no returned study and whose third
  page returns two: the table holds the two studies of the first page and the new
  study of the third page, and the study that both pages returned only once.
\<close>

theorem empty_later_page_skipped_witness:
  "query_ctgov_api middle_page_empty ''heart'' [''NCTId''] False None default_study_url None
   = ([make_params ''heart'' [''NCTId''] None 1 1000,
       make_params ''heart'' [''NCTId''] None 1000 1999,
       make_params ''heart'' [''NCTId''] None 1999 2500],
      ReturnFrame \<lparr>columns = [''NCTId''],
                   rows = [[Str ''NCT001''], [Str ''NCT002''], [Str ''NCT003'']]\<rparr>)"
proof -
  let ?first = "\<lparr>NStudiesReturned = 2, NStudiesFound = 2500,
                StudyFields = [[(''Rank'', Num 1), (''NCTId'', Lst [Str ''NCT001''])],
                               [(''Rank'', Num 2), (''NCTId'', Lst [Str ''NCT002''])]]\<rparr>"
  let ?none = "\<lparr>NStudiesReturned = 0, NStudiesFound = 2500, StudyFields = []\<rparr>"
  let ?third = "\<lparr>NStudiesReturned = 2, NStudiesFound = 2500,
                StudyFields = [[(''Rank'', Num 1999), (''NCTId'', Lst [Str ''NCT002''])],
                               [(''Rank'', Num 2000), (''NCTId'', Lst [Str ''NCT003''])]]\<rparr>"
  let ?resp = "\<lambda>w :: int \<times> int. if fst w = 1000 then ?none else ?third"
  let ?studies = "[[(''Rank'', Num 1), (''NCTId'', Lst [Str ''NCT001''])],
                   [(''Rank'', Num 2), (''NCTId'', Lst [Str ''NCT002''])],
                   [(''Rank'', Num 1999), (''NCTId'', Lst [Str ''NCT002''])],
                   [(''Rank'', Num 2000), (''NCTId'', Lst [Str ''NCT003''])]]"
  have 1: "''heart'' \<noteq> []" and 2: "length [''NCTId''] \<le> 20" by simp_all
  have 3: "middle_page_empty default_study_url (make_params ''heart'' [''NCTId''] None 1 1000)
             = Inr ?first"
    by (simp add: middle_page_empty_def make_params_def)
  have 4: "NStudiesReturned ?first > 0" by simp
  have 5: "(2500::int) = limit_total None (NStudiesFound ?first)" by (simp add: limit_total_def)
  have 6: "middle_page_empty default_study_url
             (make_params ''heart'' [''NCTId''] None (fst w) (snd w)) = Inr (?resp w)"
    if "w \<in> set (windows 2500 1 1000)" for w
    using that by (auto simp: windows_2500 middle_page_empty_def make_params_def)
  have 7: "?studies = StudyFields ?first @
             concat (map StudyFields
                      (filter (\<lambda>i. NStudiesReturned i > 0) (map ?resp (windows 2500 1 1000))))"
    by (simp add: windows_2500)
  have 8: "[''NCTId''] = filter (\<lambda>c. c \<noteq> ''Rank'') (keep_first (concat (map (map fst) ?studies)))"
    by simp
  note run = empty_later_page_skipped
    [where get = middle_page_empty and resp = ?resp and verbose = False,
     OF 1 2 3 4 5 6 7 8, THEN conjunct1]
  show ?thesis
    using run by (simp add: windows_2500 get_cell_def)
qed

lemma synthetic_db_one_field:
  "synthetic_db n
     = map (\<lambda>v. [(''NCTId'', v)]) (map (\<lambda>i. Lst [Str (''NCT'' @ replicate i (CHR ''0''))]) [0..<n])"
  by (simp add: synthetic_db_def synthetic_study_def comp_def)

lemma replicate_inj: "replicate i x = replicate j x \<Longrightarrow> i = j"
  by (drule arg_cong [where f = length]) simp

lemma colliding_db_one_field:
  "colliding_db
     = map (\<lambda>v. [(''Condition'', v)])
         (Lst [] # Lst [Str ''''] # map (\<lambda>i. Lst [Str (replicate (Suc i) (CHR ''x''))]) [0..<999])"
  by (simp add: colliding_db_def comp_def)



end
